theory Spec2Isabelle
  imports Main "HOL-Library.AList" "HOL-Library.Multiset"
begin

chapter \<open>MekBay unit search filters: the model\<close>

text \<open>
  A shallow embedding of \<^verbatim>\<open>src/app/services/unit-search-filters.service.ts\<close>: the
  smart ordering of option names, the tri-state set matcher, the filtering pipeline, the
  range part of the option availability engine, \<^verbatim>\<open>setFilter\<close> and the compact URL
  codec. JavaScript values are modelled as follows.

  \<^item> A string is a \<^typ>\<open>string\<close>: the list of the bytes of its UTF-8 encoding. The
    white space and the line terminators of ECMAScript beyond ASCII (U+00A0, U+2028, ...)
    are the byte sequences that encode them.
  \<^item> A number is an \<^typ>\<open>int\<close>: the model covers the integers that a double holds
    exactly, and \<open>-0\<close> is \<open>0\<close> (the two are \<^verbatim>\<open>===\<close> and print alike). Fractions,
    \<^verbatim>\<open>NaN\<close> inside arrays and infinities are outside it: a function that reads a number
    from a string says so when the number is outside, and a function that would store
    such a number gives \<open>OutsideModel\<close> as its result.
  \<^item> An object used as a dictionary is an association list with distinct keys, in the order
    in which \<^verbatim>\<open>Object.keys\<close> lists them. For keys that are neither array indices nor
    \<^verbatim>\<open>__proto__\<close>, as the keys of the filters are, this is the insertion order,
    \<^verbatim>\<open>obj[k] = v\<close> is \<^const>\<open>AList.update\<close> and \<^verbatim>\<open>delete obj[k]\<close> is
    \<^const>\<open>AList.delete\<close>; for the names of a selection read from a URL, which are arbitrary
    strings, the assignment is \<open>objectSet\<close> below.
  \<^item> A \<^verbatim>\<open>Set\<close> of strings that is iterated is a duplicate-free list in insertion
    order; a \<^verbatim>\<open>Set\<close> of unit ids, which is only tested for membership, is a set.
  \<^item> A thrown error that the source catches is a \<^const>\<open>None\<close> that the catching
    function handles.
\<close>

section \<open>JavaScript built-ins\<close>

definition isDigit :: "char \<Rightarrow> bool" where
  "isDigit c = (c \<in> set ''0123456789'')"

text \<open>\<^verbatim>\<open>s.endsWith(suffix)\<close> and \<^verbatim>\<open>s.startsWith(p)\<close>.\<close>

definition endsWith :: "string \<Rightarrow> string \<Rightarrow> bool" where
  "endsWith s suffix = (length suffix \<le> length s \<and> drop (length s - length suffix) s = suffix)"

definition startsWith :: "string \<Rightarrow> string \<Rightarrow> bool" where
  "startsWith s p = (take (length p) s = p)"

text \<open>
  The line terminators of ECMAScript, U+000A, U+000D, U+2028 and U+2029, and its white
  space, U+0009, U+000B, U+000C, U+FEFF and the space separators U+0020, U+00A0, U+1680,
  U+2000 to U+200A, U+202F, U+205F and U+3000, each as its UTF-8 encoding.
\<close>

definition lineTerminators :: "string list" where
  "lineTerminators =
     [[CHR 0x0A], [CHR 0x0D], [CHR 0xE2, CHR 0x80, CHR 0xA8], [CHR 0xE2, CHR 0x80, CHR 0xA9]]"

definition whiteSpaces :: "string list" where
  "whiteSpaces =
     [[CHR 0x09], [CHR 0x0B], [CHR 0x0C], [CHR 0x20], [CHR 0xC2, CHR 0xA0],
      [CHR 0xE1, CHR 0x9A, CHR 0x80],
      [CHR 0xE2, CHR 0x80, CHR 0x80], [CHR 0xE2, CHR 0x80, CHR 0x81],
      [CHR 0xE2, CHR 0x80, CHR 0x82], [CHR 0xE2, CHR 0x80, CHR 0x83],
      [CHR 0xE2, CHR 0x80, CHR 0x84], [CHR 0xE2, CHR 0x80, CHR 0x85],
      [CHR 0xE2, CHR 0x80, CHR 0x86], [CHR 0xE2, CHR 0x80, CHR 0x87],
      [CHR 0xE2, CHR 0x80, CHR 0x88], [CHR 0xE2, CHR 0x80, CHR 0x89],
      [CHR 0xE2, CHR 0x80, CHR 0x8A], [CHR 0xE2, CHR 0x80, CHR 0xAF],
      [CHR 0xE2, CHR 0x81, CHR 0x9F], [CHR 0xE3, CHR 0x80, CHR 0x80],
      [CHR 0xEF, CHR 0xBB, CHR 0xBF]]"

text \<open>
  Whether a string holds a line terminator. In a UTF-8 encoding the bytes of a character
  occur only where that character stands, so the search runs over the bytes.
\<close>

fun hasLineTerminator :: "string \<Rightarrow> bool" where
  "hasLineTerminator [] = False"
| "hasLineTerminator (c # s) =
     (list_ex (startsWith (c # s)) lineTerminators \<or> hasLineTerminator s)"

text \<open>
  \<^verbatim>\<open>String.prototype.trim\<close> and the trimming of the start that \<^verbatim>\<open>parseFloat\<close> and
  \<^verbatim>\<open>parseInt\<close> do first: white space and line terminators are removed, one character
  at a time.
\<close>

function trimStart :: "string \<Rightarrow> string" where
  "trimStart s =
     (case List.find (startsWith s) (whiteSpaces @ lineTerminators) of
        None \<Rightarrow> s
      | Some w \<Rightarrow> trimStart (drop (length w) s))"
  by pat_completeness auto
termination
proof (relation "measure length")
  show "wf (measure length)" by simp
next
  fix s w
  assume "List.find (startsWith s) (whiteSpaces @ lineTerminators) = Some w"
  then obtain i where i: "i < length (whiteSpaces @ lineTerminators)"
      "startsWith s ((whiteSpaces @ lineTerminators) ! i)" "w = (whiteSpaces @ lineTerminators) ! i"
    unfolding find_Some_iff by blast
  have "w \<in> set (whiteSpaces @ lineTerminators)" unfolding i(3) using i(1) by (rule nth_mem)
  then have w: "0 < length w" unfolding whiteSpaces_def lineTerminators_def by auto
  have "take (length w) s = w" using i(2) unfolding i(3) startsWith_def .
  then have "length (take (length w) s) = length w" by (rule arg_cong)
  then have "length w \<le> length s" by simp
  then show "(drop (length w) s, s) \<in> measure length"
    using w by (simp del: length_greater_0_conv)
qed

function trimEnd :: "string \<Rightarrow> string" where
  "trimEnd s =
     (case List.find (endsWith s) (whiteSpaces @ lineTerminators) of
        None \<Rightarrow> s
      | Some w \<Rightarrow> trimEnd (take (length s - length w) s))"
  by pat_completeness auto
termination
proof (relation "measure length")
  show "wf (measure length)" by simp
next
  fix s w
  assume "List.find (endsWith s) (whiteSpaces @ lineTerminators) = Some w"
  then obtain i where i: "i < length (whiteSpaces @ lineTerminators)"
      "endsWith s ((whiteSpaces @ lineTerminators) ! i)" "w = (whiteSpaces @ lineTerminators) ! i"
    unfolding find_Some_iff by blast
  have "w \<in> set (whiteSpaces @ lineTerminators)" unfolding i(3) using i(1) by (rule nth_mem)
  then have w: "0 < length w" unfolding whiteSpaces_def lineTerminators_def by auto
  have "length w \<le> length s" using i(2) unfolding i(3) endsWith_def by (rule conjunct1)
  then show "(take (length s - length w) s, s) \<in> measure length"
    using w by (simp del: length_greater_0_conv)
qed

definition trim :: "string \<Rightarrow> string" where
  "trim s = trimEnd (trimStart s)"

definition digitVal :: "char \<Rightarrow> nat" where
  "digitVal c = of_char c - 48"

definition parseDigits :: "string \<Rightarrow> nat" where
  "parseDigits ds = fold (\<lambda>c n. 10 * n + digitVal c) ds 0"

text \<open>
  \<^verbatim>\<open>hay.indexOf(token, start)\<close>: the least position from \<open>start\<close> (clamped to the
  length) where \<open>token\<close> occurs; \<^const>\<open>None\<close> is the source's \<^verbatim>\<open>-1\<close>.
\<close>

definition indexOf :: "string \<Rightarrow> string \<Rightarrow> nat \<Rightarrow> nat option" where
  "indexOf hay token start =
     List.find (\<lambda>k. take (length token) (drop k hay) = token)
       [min start (length hay) ..< Suc (length hay - length token)]"

text \<open>\<^verbatim>\<open>s.split(sep)\<close> for a separator of one character: never the empty list.\<close>

fun splitOn :: "char \<Rightarrow> string \<Rightarrow> string list" where
  "splitOn sep [] = [[]]"
| "splitOn sep (c # cs) =
     (if c = sep then [] # splitOn sep cs
      else (case splitOn sep cs of
              [] \<Rightarrow> [[c]]
            | p # ps \<Rightarrow> (c # p) # ps))"

text \<open>\<^verbatim>\<open>parts.join(sep)\<close>.\<close>

fun joinWith :: "string \<Rightarrow> string list \<Rightarrow> string" where
  "joinWith sep [] = []"
| "joinWith sep [p] = p"
| "joinWith sep (p # q # ps) = p @ sep @ joinWith sep (q # ps)"

text \<open>
  \<^verbatim>\<open>Array.prototype.sort(cmp)\<close>. ECMAScript fixes the result for a consistent comparator
  (ordered, stable) and leaves the order open otherwise; the model is the stable insertion
  sort, an element going before the first one it does not compare greater than.
\<close>

fun insertSorted :: "('a \<Rightarrow> 'a \<Rightarrow> int) \<Rightarrow> 'a \<Rightarrow> 'a list \<Rightarrow> 'a list" where
  "insertSorted cmp x [] = [x]"
| "insertSorted cmp x (y # ys) =
     (if cmp x y \<le> 0 then x # y # ys else y # insertSorted cmp x ys)"

definition sortJs :: "('a \<Rightarrow> 'a \<Rightarrow> int) \<Rightarrow> 'a list \<Rightarrow> 'a list" where
  "sortJs cmp xs = foldr (insertSorted cmp) xs []"

text \<open>\<^verbatim>\<open>new Set(xs)\<close>, iterated in insertion order: the first occurrence of each value.\<close>

definition newSet :: "'a list \<Rightarrow> 'a list" where
  "newSet xs = fold (\<lambda>x acc. if x \<in> set acc then acc else acc @ [x]) xs []"

text \<open>
  \<^verbatim>\<open>a.localeCompare(b)\<close> depends on the host's locale, so the functions that call it take
  it as their first argument. \<open>byteCompare\<close> is one such order, by bytes.
\<close>

fun byteCompare :: "string \<Rightarrow> string \<Rightarrow> int" where
  "byteCompare [] [] = 0"
| "byteCompare [] (y # ys) = - 1"
| "byteCompare (x # xs) [] = 1"
| "byteCompare (x # xs) (y # ys) =
     (if x = y then byteCompare xs ys
      else if (of_char x :: nat) < of_char y then - 1 else 1)"

subsection \<open>Numbers and strings\<close>

text \<open>The decimal digits of a number, as a template literal prints an integer.\<close>

fun digitsOf :: "nat \<Rightarrow> string" where
  "digitsOf n =
     (if n < 10 then [char_of (48 + n)]
      else digitsOf (n div 10) @ [char_of (48 + n mod 10)])"

definition numberToString :: "int \<Rightarrow> string" where
  "numberToString i = (if i < 0 then CHR ''-'' # digitsOf (nat (- i)) else digitsOf (nat i))"

text \<open>
  What \<^verbatim>\<open>parseFloat\<close> and \<^verbatim>\<open>parseInt\<close> return: \<^verbatim>\<open>NaN\<close>; an integer of
  magnitude up to \<open>2\<^sup>5\<^sup>3\<close>, which the double holds exactly; or a number, not
  \<^verbatim>\<open>NaN\<close>, that the integers of the model do not give: an infinity, a fraction (also
  one that the double rounds to an integer) or a magnitude above \<open>2\<^sup>5\<^sup>3\<close>.
\<close>

datatype ParsedNumber = NaN | Whole int | Unrepresented

definition splitSign :: "string \<Rightarrow> bool \<times> string" where
  "splitSign t =
     (case t of
        [] \<Rightarrow> (False, [])
      | c # r \<Rightarrow> if c = CHR ''-'' then (True, r)
                 else if c = CHR ''+'' then (False, r) else (False, t))"

definition signed :: "bool \<Rightarrow> int \<Rightarrow> int" where
  "signed neg n = (if neg then - n else n)"

text \<open>The number that a run of decimal digits denotes.\<close>

definition decimalValue :: "string \<Rightarrow> int" where
  "decimalValue ds = fold (\<lambda>c n. 10 * n + int (digitVal c)) ds 0"

definition wholeNumber :: "bool \<Rightarrow> int \<Rightarrow> ParsedNumber" where
  "wholeNumber neg n = (if n \<le> 2 ^ 53 then Whole (signed neg n) else Unrepresented)"

text \<open>
  The number \<open>m \<times> 10\<^sup>k\<close> that a decimal literal with the digits \<open>m\<close> denotes when
  its exponent, less the number of its fraction digits, is \<open>k\<close>.
\<close>

definition decimalNumber :: "bool \<Rightarrow> int \<Rightarrow> int \<Rightarrow> ParsedNumber" where
  "decimalNumber neg m k =
     (if 0 \<le> k then wholeNumber neg (m * 10 ^ nat k)
      else if m mod 10 ^ nat (- k) = 0 then wholeNumber neg (m div 10 ^ nat (- k))
      else Unrepresented)"

text \<open>
  The exponent part at the head of a string, \<^verbatim>\<open>e\<close> or \<^verbatim>\<open>E\<close>, a sign if any and
  digits: its value, and \<open>0\<close> when the string does not open with a complete one.
\<close>

definition exponentPart :: "string \<Rightarrow> int" where
  "exponentPart t =
     (case t of
        [] \<Rightarrow> 0
      | c # r \<Rightarrow>
          if c = CHR ''e'' \<or> c = CHR ''E'' then
            (case splitSign r of
               (neg, ds) \<Rightarrow> if takeWhile isDigit ds \<noteq> []
                            then signed neg (decimalValue (takeWhile isDigit ds)) else 0)
          else 0)"

text \<open>
  \<^verbatim>\<open>parseFloat\<close>: after the white space, the longest prefix that is a
  \<^verbatim>\<open>StrDecimalLiteral\<close> is read: a sign if any, then \<^verbatim>\<open>Infinity\<close>, or digits with a
  fraction and an exponent if any, or a dot and digits with an exponent if any. What
  follows is ignored, and the result is \<^verbatim>\<open>NaN\<close> when there is no such prefix.
\<close>

definition parseFloat :: "string \<Rightarrow> ParsedNumber" where
  "parseFloat s =
     (case splitSign (trimStart s) of
        (neg, r) \<Rightarrow>
          if startsWith r ''Infinity'' then Unrepresented
          else
            let intDigits = takeWhile isDigit r;
                afterInt = dropWhile isDigit r;
                dotted = (afterInt \<noteq> [] \<and> hd afterInt = CHR ''.'');
                fracDigits = (if dotted then takeWhile isDigit (tl afterInt) else []);
                afterFrac = (if dotted then dropWhile isDigit (tl afterInt) else afterInt)
            in if intDigits = [] \<and> fracDigits = [] then NaN
               else decimalNumber neg (decimalValue (intDigits @ fracDigits))
                      (exponentPart afterFrac - int (length fracDigits)))"

text \<open>
  \<^verbatim>\<open>parseInt(s)\<close> without a radix: white space, a sign, then hexadecimal digits after
  \<^verbatim>\<open>0x\<close> and decimal digits otherwise; \<^verbatim>\<open>NaN\<close> when there is no digit. The result
  is an integer, or a double of magnitude above \<open>2\<^sup>5\<^sup>3\<close>.
\<close>

definition hexVal :: "char \<Rightarrow> nat option" where
  "hexVal c =
     (if isDigit c then Some (of_char c - 48)
      else if c \<in> set ''abcdef'' then Some (of_char c - 87)
      else if c \<in> set ''ABCDEF'' then Some (of_char c - 55)
      else None)"

definition parseHexDigits :: "string \<Rightarrow> int" where
  "parseHexDigits ds = fold (\<lambda>c n. 16 * n + int (the (hexVal c))) ds 0"

definition parseInt :: "string \<Rightarrow> ParsedNumber" where
  "parseInt s =
     (case splitSign (trimStart s) of
        (neg, r) \<Rightarrow>
          if startsWith r ''0x'' \<or> startsWith r ''0X'' then
            (if takeWhile (\<lambda>c. hexVal c \<noteq> None) (drop 2 r) \<noteq> []
             then wholeNumber neg (parseHexDigits (takeWhile (\<lambda>c. hexVal c \<noteq> None) (drop 2 r)))
             else NaN)
          else if takeWhile isDigit r \<noteq> [] then wholeNumber neg (decimalValue (takeWhile isDigit r))
          else NaN)"

subsection \<open>Percent encoding\<close>

text \<open>
  \<^verbatim>\<open>encodeURIComponent\<close> keeps the letters, the digits and \<^verbatim>\<open>- _ . ! ~ * ' ( )\<close>, and
  writes every other byte of the UTF-8 encoding as \<^verbatim>\<open>%XX\<close>.
\<close>

definition unreserved :: "char \<Rightarrow> bool" where
  "unreserved c =
     (c \<in> set ''ABCDEFGHIJKLMNOPQRSTUVWXYZabcdefghijklmnopqrstuvwxyz0123456789''
      \<or> c \<in> set [CHR ''-'', CHR ''_'', CHR ''.'', CHR ''!'', CHR ''~'', CHR ''*'', CHR 0x27,
                  CHR ''('', CHR '')''])"

definition hexDigit :: "nat \<Rightarrow> char" where
  "hexDigit n = ''0123456789ABCDEF'' ! (n mod 16)"

definition encodeURIComponent :: "string \<Rightarrow> string" where
  "encodeURIComponent s =
     concat (map (\<lambda>c. if unreserved c then [c]
                       else [CHR ''%'', hexDigit (of_char c div 16), hexDigit (of_char c)]) s)"

text \<open>
  \<^verbatim>\<open>decodeURIComponent\<close> throws a \<^verbatim>\<open>URIError\<close> (\<^const>\<open>None\<close>) when a \<^verbatim>\<open>%\<close> is not
  followed by two hexadecimal digits, or when the escaped bytes from \<open>0x80\<close> up are not a
  well-formed UTF-8 sequence made of escapes only. It is modelled in two passes: the
  escapes are read, then the sequences are checked.
\<close>

datatype uriItem = Raw char | Octet nat

fun uriItems :: "string \<Rightarrow> uriItem list option" where
  "uriItems [] = Some []"
| "uriItems (c # rest) =
     (if c = CHR ''%'' then
        (case rest of
           h # l # rest' \<Rightarrow>
             (case (hexVal h, hexVal l) of
                (Some a, Some b) \<Rightarrow> map_option (Cons (Octet (16 * a + b))) (uriItems rest')
              | _ \<Rightarrow> None)
         | _ \<Rightarrow> None)
      else map_option (Cons (Raw c)) (uriItems rest))"

definition continuation :: "nat \<Rightarrow> bool" where
  "continuation b = (0x80 \<le> b \<and> b \<le> 0xBF)"

definition utf8Valid2 :: "nat \<Rightarrow> nat \<Rightarrow> bool" where
  "utf8Valid2 b0 b1 = (0xC2 \<le> b0 \<and> b0 \<le> 0xDF \<and> continuation b1)"

definition utf8Valid3 :: "nat \<Rightarrow> nat \<Rightarrow> nat \<Rightarrow> bool" where
  "utf8Valid3 b0 b1 b2 =
     (((b0 = 0xE0 \<and> 0xA0 \<le> b1 \<and> b1 \<le> 0xBF)
       \<or> (0xE1 \<le> b0 \<and> b0 \<le> 0xEC \<and> continuation b1)
       \<or> (b0 = 0xED \<and> 0x80 \<le> b1 \<and> b1 \<le> 0x9F)
       \<or> (0xEE \<le> b0 \<and> b0 \<le> 0xEF \<and> continuation b1))
      \<and> continuation b2)"

definition utf8Valid4 :: "nat \<Rightarrow> nat \<Rightarrow> nat \<Rightarrow> nat \<Rightarrow> bool" where
  "utf8Valid4 b0 b1 b2 b3 =
     (((b0 = 0xF0 \<and> 0x90 \<le> b1 \<and> b1 \<le> 0xBF)
       \<or> (0xF1 \<le> b0 \<and> b0 \<le> 0xF3 \<and> continuation b1)
       \<or> (b0 = 0xF4 \<and> 0x80 \<le> b1 \<and> b1 \<le> 0x8F))
      \<and> continuation b2 \<and> continuation b3)"

fun assemble :: "uriItem list \<Rightarrow> string option" where
  "assemble [] = Some []"
| "assemble (Raw c # r) = map_option (Cons c) (assemble r)"
| "assemble (Octet b # r) =
     (if b < 0x80 then map_option (Cons (char_of b)) (assemble r)
      else if b < 0xC0 then None
      else if b < 0xE0 then
        (case r of
           Octet b1 # r' \<Rightarrow>
             if utf8Valid2 b b1
             then map_option (\<lambda>t. char_of b # char_of b1 # t) (assemble r') else None
         | _ \<Rightarrow> None)
      else if b < 0xF0 then
        (case r of
           Octet b1 # Octet b2 # r' \<Rightarrow>
             if utf8Valid3 b b1 b2
             then map_option (\<lambda>t. char_of b # char_of b1 # char_of b2 # t) (assemble r')
             else None
         | _ \<Rightarrow> None)
      else if b < 0xF8 then
        (case r of
           Octet b1 # Octet b2 # Octet b3 # r' \<Rightarrow>
             if utf8Valid4 b b1 b2 b3
             then map_option (\<lambda>t. char_of b # char_of b1 # char_of b2 # char_of b3 # t)
                    (assemble r')
             else None
         | _ \<Rightarrow> None)
      else None)"

definition decodeURIComponent :: "string \<Rightarrow> string option" where
  "decodeURIComponent s = (case uriItems s of None \<Rightarrow> None | Some items \<Rightarrow> assemble items)"

section \<open>Natural and smart ordering\<close>

text \<open>
  \<^verbatim>\<open>naturalCompare\<close> matches each string against
  \<^verbatim>\<open>/^([^\d]*)(\d+)?(.*)$/\<close>: the characters before the first digit, the first run of
  digits, and the rest, which must not hold a line terminator (the dot does not match
  one); the match fails otherwise.
\<close>

definition regexMatch :: "string \<Rightarrow> (string \<times> string \<times> string) option" where
  "regexMatch a =
     (let g1 = takeWhile (\<lambda>c. \<not> isDigit c) a;
          r = dropWhile (\<lambda>c. \<not> isDigit c) a;
          g2 = takeWhile isDigit r;
          g3 = dropWhile isDigit r
      in if hasLineTerminator g3 then None else Some (g1, g2, g3))"

text \<open>The pair \<^verbatim>\<open>(prefixA, numA)\<close> of the source; \<^const>\<open>None\<close> is \<^verbatim>\<open>NaN\<close>.\<close>

definition naturalKey :: "string \<Rightarrow> string \<times> int option" where
  "naturalKey a =
     (case regexMatch a of
        None \<Rightarrow> (a, None)
      | Some (g1, g2, g3) \<Rightarrow>
          (trim (g1 @ g3), if g2 \<noteq> [] then Some (int (parseDigits g2)) else None))"

definition naturalCompare :: "(string \<Rightarrow> string \<Rightarrow> int) \<Rightarrow> string \<Rightarrow> string \<Rightarrow> int" where
  "naturalCompare localeCompare a b =
     (case (naturalKey a, naturalKey b) of
        ((prefixA, numA), (prefixB, numB)) \<Rightarrow>
          if prefixA = prefixB then
            (case (numA, numB) of
               (Some x, Some y) \<Rightarrow> x - y
             | (Some x, None) \<Rightarrow> - 1
             | (None, Some y) \<Rightarrow> 1
             | (None, None) \<Rightarrow> localeCompare a b)
          else localeCompare prefixA prefixB)"

text \<open>
  The inner loop of a wildcard entry: each match is pushed on \<^verbatim>\<open>sortedOptions\<close> and
  deleted from \<^verbatim>\<open>optionsSet\<close>. The state is the pair of the two.
\<close>

definition emitMatches ::
  "string list \<Rightarrow> string list \<times> string list \<Rightarrow> string list \<times> string list" where
  "emitMatches matchingOptions acc =
     fold (\<lambda>m (optionsSet, sortedOptions). (removeAll m optionsSet, sortedOptions @ [m]))
       matchingOptions acc"

text \<open>One round of the loop over \<^verbatim>\<open>predefinedOrder\<close>.\<close>

definition orderStep ::
  "(string \<Rightarrow> string \<Rightarrow> int) \<Rightarrow> string \<Rightarrow> string list \<times> string list
     \<Rightarrow> string list \<times> string list" where
  "orderStep localeCompare predefinedOpt acc =
     (case acc of
        (optionsSet, sortedOptions) \<Rightarrow>
          if endsWith predefinedOpt ''*'' then
            emitMatches
              (sortJs (naturalCompare localeCompare)
                 (filter (\<lambda>opt. startsWith opt (butlast predefinedOpt)) optionsSet))
              (optionsSet, sortedOptions)
          else if predefinedOpt \<in> set optionsSet then
            (removeAll predefinedOpt optionsSet, sortedOptions @ [predefinedOpt])
          else (optionsSet, sortedOptions))"

text \<open>
  \<^verbatim>\<open>smartDropdownSort(options, predefinedOrder?)\<close>; an absent order is \<^const>\<open>None\<close>.
\<close>

definition smartDropdownSort ::
  "(string \<Rightarrow> string \<Rightarrow> int) \<Rightarrow> string list \<Rightarrow> string list option \<Rightarrow> string list" where
  "smartDropdownSort localeCompare opts predefinedOrder =
     (case predefinedOrder of
        None \<Rightarrow> sortJs (naturalCompare localeCompare) opts
      | Some order \<Rightarrow>
          if order \<noteq> [] then
            (case fold (orderStep localeCompare) order (newSet opts, []) of
               (optionsSet, sortedOptions) \<Rightarrow>
                 sortedOptions @ sortJs (naturalCompare localeCompare) optionsSet)
          else sortJs (naturalCompare localeCompare) opts)"

section \<open>Units\<close>

text \<open>
  Modelled from the spec: the \<^verbatim>\<open>Unit\<close> interface of \<^verbatim>\<open>models/units.model\<close> is not
  among the sources. A unit has a numeric id, a battle value, the normalised chassis and
  model texts (each may be absent), a list of components with a name \<^verbatim>\<open>n\<close> and a
  quantity \<^verbatim>\<open>q\<close>, and further fields that the filters read by key,
  \<^verbatim>\<open>(unit as any)[key]\<close>: absent, a string, a number or a list of strings.
\<close>

datatype FieldValue = Missing | Text string | Number int | TextList "string list"

record UnitComponent =
  comp_n :: string
  comp_q :: int

record Unit =
  id' :: int
  bv :: int
  chassis' :: "string option"
  model' :: "string option"
  comp :: "UnitComponent list"
  props :: "(string \<times> FieldValue) list"

definition field :: "Unit \<Rightarrow> string \<Rightarrow> FieldValue" where
  "field u k = (case map_of (props u) k of None \<Rightarrow> Missing | Some v \<Rightarrow> v)"

section \<open>Text search: non-overlapping token matching\<close>

type_synonym span = "nat \<times> nat"

text \<open>\<^verbatim>\<open>taken.some(([s, e]) => !(end <= s || idx >= e))\<close>.\<close>

definition overlaps :: "span list \<Rightarrow> nat \<Rightarrow> nat \<Rightarrow> bool" where
  "overlaps taken idx end' = list_ex (\<lambda>(s, e). \<not> (end' \<le> s \<or> idx \<ge> e)) taken"

text \<open>
  The \<^verbatim>\<open>while\<close> loop of \<^verbatim>\<open>tokensMatchNonOverlapping\<close> for one token, from
  \<open>start\<close>: the position it claims, or \<^const>\<open>None\<close> when \<^verbatim>\<open>found\<close> stays false.
\<close>

function findFree :: "string \<Rightarrow> string \<Rightarrow> span list \<Rightarrow> nat \<Rightarrow> nat option" where
  "findFree hay token taken start =
     (if start + length token \<le> length hay then
        (case indexOf hay token start of
           None \<Rightarrow> None
         | Some idx \<Rightarrow>
             if \<not> overlaps taken idx (idx + length token) then Some idx
             else findFree hay token taken (idx + 1))
      else None)"
  by pat_completeness auto
termination
proof (relation "measure (\<lambda>(hay, token, taken, start). Suc (length hay) - start)")
  show "wf (measure (\<lambda>(hay, token, taken, start). Suc (length hay) - start))" by simp
next
  fix hay token :: string and taken :: "span list" and start idx :: nat
  assume a: "start + length token \<le> length hay" and b: "indexOf hay token start = Some idx"
  have "idx \<in> set [min start (length hay) ..< Suc (length hay - length token)]"
    using b unfolding indexOf_def by (metis find_Some_iff nth_mem)
  then have "min start (length hay) \<le> idx" by (simp del: upt_Suc)
  with a have "start \<le> idx" by simp
  with a show "((hay, token, taken, idx + 1), (hay, token, taken, start))
      \<in> measure (\<lambda>(hay, token, taken, start). Suc (length hay) - start)" by simp
qed

declare findFree.simps [simp del]

text \<open>
  The loop over the tokens, with the list \<^verbatim>\<open>taken\<close> of claimed spans as its state:
  the spans at the end, or \<^const>\<open>None\<close> where the source returns false.
\<close>

fun matchTokens :: "string \<Rightarrow> string list \<Rightarrow> span list \<Rightarrow> span list option" where
  "matchTokens hay [] taken = Some taken"
| "matchTokens hay (token # tokens) taken =
     (if token = [] then matchTokens hay tokens taken
      else case findFree hay token taken 0 of
             None \<Rightarrow> None
           | Some idx \<Rightarrow> matchTokens hay tokens (taken @ [(idx, idx + length token)]))"

definition tokensMatchNonOverlapping :: "string \<Rightarrow> string list \<Rightarrow> bool" where
  "tokensMatchNonOverlapping hay tokens = (matchTokens hay tokens [] \<noteq> None)"

text \<open>\<^verbatim>\<open>matchesWords\<close>: the text is \<^verbatim>\<open>`${unit._chassis ?? ''} ${unit._model ?? ''}`\<close>.\<close>

definition orEmpty :: "string option \<Rightarrow> string" where
  "orEmpty s = (case s of None \<Rightarrow> [] | Some t \<Rightarrow> t)"

definition matchesWords :: "Unit \<Rightarrow> string list \<Rightarrow> bool" where
  "matchesWords unit words =
     (if words = [] then True
      else tokensMatchNonOverlapping (orEmpty (chassis' unit) @ '' '' @ orEmpty (model' unit)) words)"

section \<open>Tri-state set matcher\<close>

datatype MultiState = StateOr | StateAnd | StateNot | StateOff

record MultiStateSelectionValue =
  state :: MultiState
  count :: int

text \<open>
  A \<^verbatim>\<open>MultiStateSelection\<close> is an object from option names to selection values:
  \<^verbatim>\<open>Object.entries\<close> gives the list.
\<close>

type_synonym MultiStateSelection = "(string \<times> MultiStateSelectionValue) list"

text \<open>\<^verbatim>\<open>counts.get(name) || 0\<close>.\<close>

definition countOf :: "(string \<times> int) list \<Rightarrow> string \<Rightarrow> int" where
  "countOf cs nm = (case map_of cs nm of None \<Rightarrow> 0 | Some c \<Rightarrow> c)"

text \<open>
  \<^verbatim>\<open>getUnitComponentData\<close>: the pair of \<^verbatim>\<open>componentNames\<close> and
  \<^verbatim>\<open>componentCounts\<close>. The source keeps the pair in a \<^verbatim>\<open>WeakMap\<close> per unit; the
  memo does not change what is returned and is left out.
\<close>

definition getUnitComponentData :: "Unit \<Rightarrow> string list \<times> (string \<times> int) list" where
  "getUnitComponentData unit =
     fold (\<lambda>component (componentNames, componentCounts).
             (if comp_n component \<in> set componentNames then componentNames
              else componentNames @ [comp_n component],
              AList.update (comp_n component)
                (countOf componentCounts (comp_n component) + comp_q component)
                componentCounts))
       (comp unit) ([], [])"

text \<open>
  \<^verbatim>\<open>(Array.isArray(propValue) ? propValue : [propValue]).filter(v => v != null)\<close>. A
  number stays in the source's list, but the names of a selection are strings and no
  lookup finds it, so the model leaves it out.
\<close>

definition unitValues :: "FieldValue \<Rightarrow> string list" where
  "unitValues v =
     (case v of Missing \<Rightarrow> [] | Text s \<Rightarrow> [s] | Number i \<Rightarrow> [] | TextList xs \<Rightarrow> xs)"

definition valueCounts :: "string list \<Rightarrow> (string \<times> int) list" where
  "valueCounts vs = fold (\<lambda>v cs. AList.update v (countOf cs v + 1) cs) vs []"

record UnitData =
  names :: "string list"
  counts :: "(string \<times> int) list option"

definition unitDataFor :: "string \<Rightarrow> bool \<Rightarrow> Unit \<Rightarrow> UnitData" where
  "unitDataFor k needsQuantityCounting unit =
     (if k = ''componentName'' then
        \<lparr>names = fst (getUnitComponentData unit),
         counts = (if needsQuantityCounting then Some (snd (getUnitComponentData unit)) else None)\<rparr>
      else
        \<lparr>names = newSet (unitValues (field unit k)),
         counts = (if needsQuantityCounting then Some (valueCounts (unitValues (field unit k)))
                   else None)\<rparr>)"

text \<open>
  The body of the \<^verbatim>\<open>units.filter\<close> callback after \<^verbatim>\<open>unitData\<close> is built: NOT, then
  AND, then OR. The maps \<^verbatim>\<open>orMap\<close> and \<^verbatim>\<open>andMap\<close> are the lists, the names of a
  selection being distinct.
\<close>

definition hasAll :: "(string \<times> int) list \<Rightarrow> bool \<Rightarrow> UnitData \<Rightarrow> bool" where
  "hasAll andList needsQuantityCounting unitData =
     (case (needsQuantityCounting, counts unitData) of
        (True, Some cs) \<Rightarrow> list_all (\<lambda>(nm, requiredCount). \<not> countOf cs nm < requiredCount) andList
      | _ \<Rightarrow> list_all (\<lambda>(nm, requiredCount). nm \<in> set (names unitData)) andList)"

definition hasSome :: "(string \<times> int) list \<Rightarrow> bool \<Rightarrow> UnitData \<Rightarrow> bool" where
  "hasSome orList needsQuantityCounting unitData =
     (case (needsQuantityCounting, counts unitData) of
        (True, Some cs) \<Rightarrow> list_ex (\<lambda>(nm, requiredCount). countOf cs nm \<ge> requiredCount) orList
      | _ \<Rightarrow> list_ex (\<lambda>(nm, requiredCount). nm \<in> set (names unitData)) orList)"

definition unitPasses ::
  "(string \<times> int) list \<Rightarrow> (string \<times> int) list \<Rightarrow> string list \<Rightarrow> bool \<Rightarrow> UnitData \<Rightarrow> bool" where
  "unitPasses orList andList notSet needsQuantityCounting unitData =
     (if list_ex (\<lambda>notName. notName \<in> set (names unitData)) notSet then False
      else if andList \<noteq> [] \<and> \<not> hasAll andList needsQuantityCounting unitData then False
      else if orList \<noteq> [] then hasSome orList needsQuantityCounting unitData
      else True)"

definition filterUnitsByMultiState :: "Unit list \<Rightarrow> string \<Rightarrow> MultiStateSelection \<Rightarrow> Unit list" where
  "filterUnitsByMultiState units k selection =
     (let orList = [(nm, count sv). (nm, sv) \<leftarrow> selection, state sv = StateOr];
          andList = [(nm, count sv). (nm, sv) \<leftarrow> selection, state sv = StateAnd];
          notSet = [nm. (nm, sv) \<leftarrow> selection, state sv = StateNot]
      in if orList = [] \<and> andList = [] \<and> notSet = [] then units
         else
           let needsQuantityCounting = list_ex (\<lambda>(nm, c). c > 1) (orList @ andList)
           in filter (\<lambda>unit. unitPasses orList andList notSet needsQuantityCounting
                                (unitDataFor k needsQuantityCounting unit)) units)"

section \<open>Filter registry and state\<close>

datatype AdvFilterType = DROPDOWN | RANGE

text \<open>
  \<^verbatim>\<open>AdvFilterConfig\<close>. The optional flags are false when absent; \<^verbatim>\<open>curve\<close> only
  shapes the slider and is left out.
\<close>

record AdvFilterConfig =
  key :: string
  label :: string
  type' :: AdvFilterType
  sortOptions :: "string list option"
  external :: bool
  ignoreValues :: "int list option"
  multistate :: bool
  countable :: bool

definition dropdownConf :: "string \<Rightarrow> string \<Rightarrow> AdvFilterConfig" where
  "dropdownConf k l =
     \<lparr>key = k, label = l, type' = DROPDOWN, sortOptions = None, external = False,
      ignoreValues = None, multistate = False, countable = False\<rparr>"

definition rangeConf :: "string \<Rightarrow> string \<Rightarrow> AdvFilterConfig" where
  "rangeConf k l =
     \<lparr>key = k, label = l, type' = RANGE, sortOptions = None, external = False,
      ignoreValues = None, multistate = False, countable = False\<rparr>"

definition ADVANCED_FILTERS :: "AdvFilterConfig list" where
  "ADVANCED_FILTERS =
     [(dropdownConf ''era'' ''Era'')\<lparr>external := True\<rparr>,
      (dropdownConf ''faction'' ''Faction'')\<lparr>external := True\<rparr>,
      dropdownConf ''type'' ''Type'',
      dropdownConf ''subtype'' ''Subtype'',
      (dropdownConf ''techBase'' ''Tech'')
        \<lparr>sortOptions := Some [''Inner Sphere'', ''Clan'', ''Mixed'']\<rparr>,
      dropdownConf ''role'' ''Role'',
      (dropdownConf ''weightClass'' ''Weight Class'')
        \<lparr>sortOptions := Some [''Ultra Light*'', ''Light'', ''Medium'', ''Heavy'', ''Assault'',
                               ''Colossal*'', ''Small*'', ''Medium*'', ''Large*'']\<rparr>,
      (dropdownConf ''level'' ''Rules'')
        \<lparr>sortOptions := Some [''Introductory'', ''Standard'', ''Advanced'', ''Experimental'',
                               ''Unofficial'']\<rparr>,
      dropdownConf ''c3'' ''Network'',
      dropdownConf ''moveType'' ''Motive'',
      (dropdownConf ''componentName'' ''Equipment'')\<lparr>multistate := True, countable := True\<rparr>,
      (dropdownConf ''quirks'' ''Quirks'')\<lparr>multistate := True\<rparr>,
      dropdownConf ''source'' ''Source'',
      (dropdownConf ''_tags'' ''Tags'')\<lparr>multistate := True\<rparr>,
      rangeConf ''bv'' ''BV'',
      rangeConf ''tons'' ''Tons'',
      rangeConf ''armor'' ''Armor'',
      rangeConf ''internal'' ''Structure / Squad Size'',
      rangeConf ''_mdSumNoPhysical'' ''Firepower'',
      rangeConf ''dpt'' ''Damage/Turn'',
      (rangeConf ''heat'' ''Total Weapons Heat'')\<lparr>ignoreValues := Some [- 1]\<rparr>,
      (rangeConf ''dissipation'' ''Dissipation'')\<lparr>ignoreValues := Some [- 1]\<rparr>,
      rangeConf ''_maxRange'' ''Range'',
      rangeConf ''walk'' ''Walk MP'',
      rangeConf ''run'' ''Run MP'',
      rangeConf ''jump'' ''Jump MP'',
      rangeConf ''year'' ''Year'',
      rangeConf ''cost'' ''Cost'']"

text \<open>\<^verbatim>\<open>ADVANCED_FILTERS.find(f => f.key === key)\<close>.\<close>

definition findConf :: "string \<Rightarrow> AdvFilterConfig option" where
  "findConf k = List.find (\<lambda>f. key f = k) ADVANCED_FILTERS"

text \<open>
  The value of a filter is typed \<^verbatim>\<open>any\<close>. The dropdown and slider components and the
  URL loader store three shapes: the array of the selected names for a plain dropdown, the
  selection object for a multistate dropdown and the pair \<^verbatim>\<open>[min, max]\<close> for a range.
  Where a function meets a shape that is not the one of the filter's kind, the model
  follows the source's type tests; the two places where JavaScript would then coerce a name
  to a number are marked.
\<close>

datatype FilterValue = Names "string list" | Selection MultiStateSelection | Range int int

record FilterEntry =
  filterValue :: FilterValue
  interactedWith :: bool

type_synonym FilterState = "(string \<times> FilterEntry) list"

section \<open>The data service\<close>

text \<open>
  Modelled from the spec: \<^verbatim>\<open>DataService\<close> is not among the sources. It gives the unit
  list, a readiness flag, the eras (id, name, the set of the ids of their units) and the
  factions (id, name, and per era id a set of unit ids); \<^verbatim>\<open>getEraByName\<close> and
  \<^verbatim>\<open>getFactionByName\<close> look a name up in these lists. The faction with id
  \<^verbatim>\<open>FACTION_EXTINCT\<close> holds, per era, the units that are extinct in it.
\<close>

record Era =
  era_id :: int
  era_name :: string
  era_units :: "int set"

record Faction =
  faction_id :: int
  faction_name :: string
  faction_eras :: "(int \<times> int set) list"

record DataService =
  isDataReady :: bool
  getUnits :: "Unit list"
  getEras :: "Era list"
  getFactions :: "Faction list"

definition FACTION_EXTINCT :: int where
  "FACTION_EXTINCT = 3"

definition getEraByName :: "DataService \<Rightarrow> string \<Rightarrow> Era option" where
  "getEraByName ds nm = List.find (\<lambda>e. era_name e = nm) (getEras ds)"

definition getFactionByName :: "DataService \<Rightarrow> string \<Rightarrow> Faction option" where
  "getFactionByName ds nm = List.find (\<lambda>f. faction_name f = nm) (getFactions ds)"

section \<open>The service\<close>

text \<open>
  The signals and caches of \<^verbatim>\<open>UnitSearchFiltersService\<close> that the modelled functions
  read or write. \<open>calculateAdjustedBV\<close> is \<^verbatim>\<open>BVCalculatorUtil.calculateAdjustedBV\<close>, an
  external collaborator. \<open>search\<close> is the query after its split into OR-groups of words
  (trimmed, lower-cased, accents removed, longest first), \<^const>\<open>None\<close> for an empty
  query; the splitting is string handling of the host and of
  \<^verbatim>\<open>DataService.removeAccents\<close>, and \<open>splitQuery\<close> is that splitting, which the model
  applies when the signal is set to a string.
\<close>

record Service =
  dataService :: DataService
  calculateAdjustedBV :: "int \<Rightarrow> int \<Rightarrow> int \<Rightarrow> int"
  splitQuery :: "string \<Rightarrow> string list list option"
  pilotGunnerySkill :: int
  pilotPilotingSkill :: int
  search :: "string list list option"
  filterState :: FilterState
  selectedSort :: string
  selectedSortDirection :: string
  expandedView :: bool
  totalRangesCache :: "(string \<times> int \<times> int) list"
  urlStateInitialized :: bool

definition units :: "Service \<Rightarrow> Unit list" where
  "units svc = (if isDataReady (dataService svc) then getUnits (dataService svc) else [])"

definition getAdjustedBV :: "Service \<Rightarrow> Unit \<Rightarrow> int" where
  "getAdjustedBV svc unit =
     (if pilotGunnerySkill svc = 4 \<and> pilotPilotingSkill svc = 5 then bv unit
      else calculateAdjustedBV svc (bv unit) (pilotGunnerySkill svc) (pilotPilotingSkill svc))"

section \<open>Filtering pipeline\<close>

subsection \<open>External id-based filters\<close>

text \<open>\<^verbatim>\<open>extinctFaction?.eras[era.id] as Set<number> || new Set<number>()\<close>.\<close>

definition extinctUnitIdsForEra :: "DataService \<Rightarrow> Era \<Rightarrow> int set" where
  "extinctUnitIdsForEra ds era =
     (case List.find (\<lambda>f. faction_id f = FACTION_EXTINCT) (getFactions ds) of
        None \<Rightarrow> {}
      | Some extinctFaction \<Rightarrow>
          (case map_of (faction_eras extinctFaction) (era_id era) of
             None \<Rightarrow> {}
           | Some ids \<Rightarrow> ids))"

definition getUnitIdsForSelectedEras :: "DataService \<Rightarrow> string list \<Rightarrow> int set option" where
  "getUnitIdsForSelectedEras ds selectedEraNames =
     (if selectedEraNames = [] then None
      else Some (fold (\<lambda>eraName unitIds.
                         case getEraByName ds eraName of
                           None \<Rightarrow> unitIds
                         | Some era \<Rightarrow>
                             unitIds \<union> {i \<in> era_units era. i \<notin> extinctUnitIdsForEra ds era})
                   selectedEraNames {}))"

definition getUnitIdsForSelectedFactions ::
  "DataService \<Rightarrow> string list \<Rightarrow> int set option \<Rightarrow> int set option" where
  "getUnitIdsForSelectedFactions ds selectedFactionNames contextEraIds =
     (if selectedFactionNames = [] then None
      else Some (fold (\<lambda>factionName unitIds.
                         case getFactionByName ds factionName of
                           None \<Rightarrow> unitIds
                         | Some faction \<Rightarrow>
                             fold (\<lambda>(eraId, ids) acc.
                                     if (case contextEraIds of
                                           None \<Rightarrow> True
                                         | Some ctx \<Rightarrow> eraId \<in> ctx)
                                     then acc \<union> ids else acc)
                               (faction_eras faction) unitIds)
                   selectedFactionNames {}))"

text \<open>
  \<^verbatim>\<open>activeFilters\<close>: the values of the touched entries. \<open>selectedNames\<close> is
  \<^verbatim>\<open>activeFilters[k] as string[] || []\<close>, whose \<^verbatim>\<open>length\<close> the source tests; a
  selection object has none. A pair of numbers under the era or the faction key is not a
  shape of a dropdown and is read as no name.
\<close>

definition activeFilters :: "FilterState \<Rightarrow> (string \<times> FilterValue) list" where
  "activeFilters st = map (\<lambda>(k, s). (k, filterValue s)) (filter (\<lambda>(k, s). interactedWith s) st)"

definition selectedNames :: "(string \<times> FilterValue) list \<Rightarrow> string \<Rightarrow> string list" where
  "selectedNames active k = (case map_of active k of Some (Names ns) \<Rightarrow> ns | _ \<Rightarrow> [])"

text \<open>
  The first half of \<^verbatim>\<open>applyFilters\<close>: \<^verbatim>\<open>finalIds\<close>, or \<^const>\<open>None\<close> when neither
  \<^verbatim>\<open>eraUnitIds\<close> nor \<^verbatim>\<open>factionUnitIds\<close> is set. The era ids are computed only in the
  \<^verbatim>\<open>else\<close> branch of the test on the faction names.
\<close>

definition externalIds :: "Service \<Rightarrow> FilterState \<Rightarrow> int set option" where
  "externalIds svc st =
     (let selectedEraNames = selectedNames (activeFilters st) ''era'';
          selectedFactionNames = selectedNames (activeFilters st) ''faction'';
          selectedEraIds = map era_id (filter (\<lambda>e. era_name e \<in> set selectedEraNames)
                                        (getEras (dataService svc)));
          factionUnitIds =
            (if selectedFactionNames \<noteq> [] then
               getUnitIdsForSelectedFactions (dataService svc) selectedFactionNames
                 (if selectedEraIds \<noteq> [] then Some (set selectedEraIds) else None)
             else None);
          eraUnitIds =
            (if selectedFactionNames \<noteq> [] then None
             else if selectedEraNames \<noteq> [] then
               getUnitIdsForSelectedEras (dataService svc) selectedEraNames
             else None)
      in case (eraUnitIds, factionUnitIds) of
           (Some e, Some f) \<Rightarrow> Some (e \<inter> f)
         | (Some e, None) \<Rightarrow> Some e
         | (None, f) \<Rightarrow> f)"

subsection \<open>Per-field filters\<close>

text \<open>
  The callback of the range filter on a key other than \<^verbatim>\<open>bv\<close>. The unit's value is a
  number or absent; a string there would be coerced by the comparison, which the model
  does not follow.
\<close>

definition rangeKeeps :: "AdvFilterConfig \<Rightarrow> int \<Rightarrow> int \<Rightarrow> Unit \<Rightarrow> bool" where
  "rangeKeeps conf lo hi u =
     (case field u (key conf) of
        Number unitValue \<Rightarrow>
          if (case ignoreValues conf of None \<Rightarrow> False | Some ivs \<Rightarrow> unitValue \<in> set ivs)
          then lo = 0
          else lo \<le> unitValue \<and> unitValue \<le> hi
      | _ \<Rightarrow> False)"

text \<open>
  One round of the loop over \<^verbatim>\<open>ADVANCED_FILTERS\<close>. An array of names under a range
  key is compared as numbers by the source: a name that is no numeral is \<^verbatim>\<open>NaN\<close> and
  keeps no unit, which is what the model says for every name.
\<close>

definition applyConf :: "Service \<Rightarrow> FilterState \<Rightarrow> AdvFilterConfig \<Rightarrow> Unit list \<Rightarrow> Unit list" where
  "applyConf svc st conf results =
     (if external conf then results
      else case map_of st (key conf) of
             None \<Rightarrow> results
           | Some fs \<Rightarrow>
               if \<not> interactedWith fs then results
               else (case type' conf of
                       DROPDOWN \<Rightarrow>
                         if multistate conf then
                           (case filterValue fs of
                              Selection sel \<Rightarrow> filterUnitsByMultiState results (key conf) sel
                            | _ \<Rightarrow> results)
                         else
                           (case filterValue fs of
                              Names ns \<Rightarrow>
                                if ns \<noteq> [] then
                                  filter (\<lambda>u. case field u (key conf) of
                                                 Text s \<Rightarrow> s \<in> set ns
                                               | _ \<Rightarrow> False) results
                                else results
                            | Range lo hi \<Rightarrow>
                                filter (\<lambda>u. case field u (key conf) of
                                               Number i \<Rightarrow> i = lo \<or> i = hi
                                             | _ \<Rightarrow> False) results
                            | Selection sel \<Rightarrow> results)
                     | RANGE \<Rightarrow>
                         (case filterValue fs of
                            Range lo hi \<Rightarrow>
                              if key conf = ''bv'' then
                                filter (\<lambda>u. lo \<le> getAdjustedBV svc u \<and> getAdjustedBV svc u \<le> hi)
                                  results
                              else filter (rangeKeeps conf lo hi) results
                          | Names ns \<Rightarrow> []
                          | Selection sel \<Rightarrow> results)))"

definition applyFilters :: "Service \<Rightarrow> Unit list \<Rightarrow> FilterState \<Rightarrow> Unit list" where
  "applyFilters svc us st =
     fold (applyConf svc st) ADVANCED_FILTERS
       (case externalIds svc st of
          None \<Rightarrow> us
        | Some finalIds \<Rightarrow> filter (\<lambda>u. id' u \<in> finalIds) us)"

text \<open>
  The text search that \<^verbatim>\<open>filteredUnits\<close> and \<^verbatim>\<open>advOptions\<close> both run first: a unit
  stays when it matches the words of some OR-group.
\<close>

definition baseUnits :: "Service \<Rightarrow> Unit list" where
  "baseUnits svc =
     (case search svc of
        None \<Rightarrow> units svc
      | Some orGroups \<Rightarrow> filter (\<lambda>unit. list_ex (matchesWords unit) orGroups) (units svc))"

section \<open>Option availability: range filters\<close>

definition getValidFilterValues :: "Unit list \<Rightarrow> AdvFilterConfig \<Rightarrow> int list" where
  "getValidFilterValues us conf =
     (let vals = concat (map (\<lambda>u. case field u (key conf) of Number i \<Rightarrow> [i] | _ \<Rightarrow> []) us)
      in case ignoreValues conf of
           None \<Rightarrow> vals
         | Some ivs \<Rightarrow> if ivs \<noteq> [] then filter (\<lambda>v. v \<notin> set ivs) vals else vals)"

text \<open>The clamp of \<^verbatim>\<open>currentValue\<close> into \<^verbatim>\<open>availableRange\<close>, with the swap.\<close>

definition clampRange :: "int \<times> int \<Rightarrow> int \<times> int \<Rightarrow> int \<times> int" where
  "clampRange availableRange currentValue =
     (let clampedMin = max (fst availableRange) (min (fst currentValue) (snd availableRange));
          clampedMax = min (snd availableRange) (max (snd currentValue) (fst availableRange))
      in if clampedMin > clampedMax then (clampedMax, clampedMin) else (clampedMin, clampedMax))"

text \<open>
  \<^verbatim>\<open>RangeFilterOptions\<close> without the label and the curve. Of the dropdown options only
  their kind is modelled.
\<close>

record RangeFilterOptions =
  totalRange :: "int \<times> int"
  options :: "int \<times> int"
  rangeValue :: "int \<times> int"
  interacted :: bool

datatype AdvFilterOptions = DropdownOptions | RangeOptions RangeFilterOptions

text \<open>\<^verbatim>\<open>contextUnits\<close>: the pipeline without the filter's own entry.\<close>

definition contextUnits :: "Service \<Rightarrow> AdvFilterConfig \<Rightarrow> Unit list" where
  "contextUnits svc conf =
     applyFilters svc (baseUnits svc) (AList.delete (key conf) (filterState svc))"

text \<open>
  The range branch of \<^verbatim>\<open>advOptions\<close>. A touched value that is not a pair is outside
  the value shapes of a range; the model reads the available range for it.
\<close>

definition rangeOptions :: "Service \<Rightarrow> AdvFilterConfig \<Rightarrow> RangeFilterOptions" where
  "rangeOptions svc conf =
     (let total = (case map_of (totalRangesCache svc) (key conf) of
                     None \<Rightarrow> (0, 0)
                   | Some r \<Rightarrow> r);
          vals = (if key conf = ''bv''
                  then filter (\<lambda>b. b > 0) (map (getAdjustedBV svc) (contextUnits svc conf))
                  else getValidFilterValues (contextUnits svc conf) conf);
          availableRange = (if vals \<noteq> [] then (Min (set vals), Max (set vals)) else total);
          touched = (case map_of (filterState svc) (key conf) of
                       None \<Rightarrow> False
                     | Some fs \<Rightarrow> interactedWith fs);
          currentValue = (case map_of (filterState svc) (key conf) of
                            None \<Rightarrow> availableRange
                          | Some fs \<Rightarrow>
                              if interactedWith fs then
                                (case filterValue fs of
                                   Range lo hi \<Rightarrow> (lo, hi)
                                 | _ \<Rightarrow> availableRange)
                              else availableRange)
      in \<lparr>totalRange = total, options = availableRange,
          rangeValue = clampRange availableRange currentValue, interacted = touched\<rparr>)"

definition advOptions :: "Service \<Rightarrow> (string \<times> AdvFilterOptions) list" where
  "advOptions svc =
     (if \<not> isDataReady (dataService svc) then []
      else map (\<lambda>conf. (key conf,
                         case type' conf of
                           DROPDOWN \<Rightarrow> DropdownOptions
                         | RANGE \<Rightarrow> RangeOptions (rangeOptions svc conf)))
             ADVANCED_FILTERS)"

text \<open>
  \<^verbatim>\<open>calculateTotalRanges\<close>, the only writer of the cache besides
  \<^verbatim>\<open>recalculateBVRange\<close>, which stores the least and the greatest adjusted battle value.
\<close>

definition totalRangeOf :: "Service \<Rightarrow> AdvFilterConfig \<Rightarrow> int \<times> int" where
  "totalRangeOf svc conf =
     (let vals = (if key conf = ''bv''
                  then filter (\<lambda>b. b > 0) (map (getAdjustedBV svc) (units svc))
                  else getValidFilterValues (units svc) conf)
      in if vals \<noteq> [] then (Min (set vals), Max (set vals)) else (0, 0))"

definition calculateTotalRanges :: "Service \<Rightarrow> Service" where
  "calculateTotalRanges svc =
     svc\<lparr>totalRangesCache :=
           fold (\<lambda>conf cache. AList.update (key conf) (totalRangeOf svc conf) cache)
             (filter (\<lambda>f. type' f = RANGE) ADVANCED_FILTERS) (totalRangesCache svc)\<rparr>"

section \<open>Setting a filter\<close>

text \<open>
  \<^verbatim>\<open>this.advOptions()[key]?.options\<close> of a range filter; absent while the data is not
  ready.
\<close>

definition availableRangeOf :: "Service \<Rightarrow> string \<Rightarrow> (int \<times> int) option" where
  "availableRangeOf svc k =
     (case map_of (advOptions svc) k of
        Some (RangeOptions r) \<Rightarrow> Some (options r)
      | _ \<Rightarrow> None)"

text \<open>
  The flag \<^verbatim>\<open>interacted\<close> that \<^verbatim>\<open>setFilter\<close> computes. An array is an object too:
  under a multistate key the empty array has no keys and is untouched, and the elements
  of any other array have no \<^verbatim>\<open>state\<close>.
\<close>

definition computeInteracted :: "Service \<Rightarrow> AdvFilterConfig \<Rightarrow> string \<Rightarrow> FilterValue \<Rightarrow> bool" where
  "computeInteracted svc conf k v =
     (case type' conf of
        RANGE \<Rightarrow>
          (case (availableRangeOf svc k, v) of
             (Some availableRange, Range lo hi) \<Rightarrow>
               \<not> (lo = fst availableRange \<and> hi = snd availableRange)
           | _ \<Rightarrow> True)
      | DROPDOWN \<Rightarrow>
          if multistate conf then
            (case v of
               Selection sel \<Rightarrow> \<not> list_all (\<lambda>(nm, sv). state sv = StateOff) sel
             | Names ns \<Rightarrow> ns \<noteq> []
             | Range lo hi \<Rightarrow> True)
          else
            (case v of
               Names ns \<Rightarrow> ns \<noteq> []
             | _ \<Rightarrow> True))"

definition setFilter :: "Service \<Rightarrow> string \<Rightarrow> FilterValue \<Rightarrow> Service" where
  "setFilter svc k v =
     (case findConf k of
        None \<Rightarrow> svc
      | Some conf \<Rightarrow>
          svc\<lparr>filterState :=
                AList.update k
                  \<lparr>filterValue = v, interactedWith = computeInteracted svc conf k v\<rparr>
                  (filterState svc)\<rparr>)"

text \<open>
  \<^verbatim>\<open>recalculateBVRange\<close>: the other writer of the cache. The sorted list of the
  positive adjusted battle values gives its least and greatest element; a touched
  \<^verbatim>\<open>bv\<close> interval is cut to them through \<^const>\<open>setFilter\<close> when that changes it.
\<close>

definition recalculateBVRange :: "Service \<Rightarrow> Service" where
  "recalculateBVRange svc =
     (let bvValues = filter (\<lambda>b. b > 0) (map (getAdjustedBV svc) (units svc))
      in if bvValues = [] then svc
         else
           let mn = Min (set bvValues);
               mx = Max (set bvValues);
               svc' = svc\<lparr>totalRangesCache :=
                            AList.update ''bv'' (mn, mx) (totalRangesCache svc)\<rparr>
           in case map_of (filterState svc') ''bv'' of
                None \<Rightarrow> svc'
              | Some currentFilter \<Rightarrow>
                  if interactedWith currentFilter then
                    (case filterValue currentFilter of
                       Range lo hi \<Rightarrow>
                         if max mn lo \<noteq> lo \<or> min mx hi \<noteq> hi
                         then setFilter svc' ''bv'' (Range (max mn lo) (min mx hi))
                         else svc'
                     | _ \<Rightarrow> svc')
                  else svc')"

section \<open>Compact URL codec\<close>

subsection \<open>Encoding\<close>

text \<open>One entry of a multistate selection, as \<^verbatim>\<open>generateCompactFiltersParam\<close> writes it.\<close>

definition encodeSelectionPart :: "string \<times> MultiStateSelectionValue \<Rightarrow> string" where
  "encodeSelectionPart p =
     encodeURIComponent (fst p)
     @ (if state (snd p) = StateAnd then ''.'' else if state (snd p) = StateNot then ''!'' else [])
     @ (if count (snd p) > 1 then ''~'' @ numberToString (count (snd p)) else [])"

text \<open>
  The part that one entry of the state adds to \<^verbatim>\<open>parts\<close>, if any. The value has the
  shape of the filter's kind; the model writes nothing for another shape.
\<close>

definition encodeEntry :: "string \<Rightarrow> FilterEntry \<Rightarrow> string option" where
  "encodeEntry k fs =
     (if \<not> interactedWith fs then None
      else case findConf k of
             None \<Rightarrow> None
           | Some conf \<Rightarrow>
               (case type' conf of
                  RANGE \<Rightarrow>
                    (case filterValue fs of
                       Range lo hi \<Rightarrow>
                         Some (k @ '':'' @ numberToString lo @ ''-'' @ numberToString hi)
                     | _ \<Rightarrow> None)
                | DROPDOWN \<Rightarrow>
                    if multistate conf then
                      (case filterValue fs of
                         Selection sel \<Rightarrow>
                           if filter (\<lambda>p. state (snd p) \<noteq> StateOff) sel \<noteq> [] then
                             Some (k @ '':'' @ joinWith '',''
                                     (map encodeSelectionPart
                                        (filter (\<lambda>p. state (snd p) \<noteq> StateOff) sel)))
                           else None
                       | _ \<Rightarrow> None)
                    else
                      (case filterValue fs of
                         Names vs \<Rightarrow>
                           if vs \<noteq> [] then
                             Some (k @ '':'' @ joinWith '','' (map encodeURIComponent vs))
                           else None
                       | _ \<Rightarrow> None)))"

definition generateCompactFiltersParam :: "FilterState \<Rightarrow> string option" where
  "generateCompactFiltersParam st =
     (let parts = concat (map (\<lambda>(k, fs). case encodeEntry k fs of
                                            None \<Rightarrow> []
                                          | Some part \<Rightarrow> [part]) st)
      in if parts \<noteq> [] then Some (joinWith ''|'' parts) else None)"

subsection \<open>Decoding\<close>

text \<open>
  The result of a function that may store a number outside the integers of the model:
  \<open>InModel v\<close> when the source returns \<open>v\<close>, and \<open>OutsideModel\<close> when what the source
  returns holds a number that \<^typ>\<open>ParsedNumber\<close> leaves unrepresented, about which
  the model says nothing more.
\<close>

datatype 'a modelled = InModel 'a | OutsideModel

text \<open>
  An array index is the canonical decimal form of an integer from \<open>0\<close> to
  \<open>2\<^sup>3\<^sup>2 - 2\<close>. \<^verbatim>\<open>Object.keys\<close> and \<^verbatim>\<open>Object.entries\<close> list the own keys of an
  object that are array indices first, in ascending order, and the other keys after
  them, in insertion order.
\<close>

definition isArrayIndex :: "string \<Rightarrow> bool" where
  "isArrayIndex k =
     (k \<noteq> [] \<and> list_all isDigit k \<and> (k = ''0'' \<or> hd k \<noteq> CHR ''0'')
      \<and> decimalValue k \<le> 4294967294)"

fun insertIndex :: "string \<Rightarrow> 'v \<Rightarrow> (string \<times> 'v) list \<Rightarrow> (string \<times> 'v) list" where
  "insertIndex k v [] = [(k, v)]"
| "insertIndex k v (p # obj) =
     (if isArrayIndex (fst p) \<and> decimalValue (fst p) < decimalValue k
      then p # insertIndex k v obj
      else (k, v) # p # obj)"

text \<open>
  \<^verbatim>\<open>obj[k] = v\<close> for an object \<open>v\<close> and an arbitrary string \<open>k\<close>, on an object made
  by \<^verbatim>\<open>{}\<close>: the key \<^verbatim>\<open>__proto__\<close> sets the prototype and adds no own key; a key
  that the object has keeps its place; a new array index goes to its place among the
  array indices, and another new key to the end.
\<close>

definition objectSet :: "string \<Rightarrow> 'v \<Rightarrow> (string \<times> 'v) list \<Rightarrow> (string \<times> 'v) list" where
  "objectSet k v obj =
     (if k = ''__proto__'' then obj
      else if k \<in> fst ` set obj then AList.update k v obj
      else if isArrayIndex k then insertIndex k v obj
      else obj @ [(k, v)])"

text \<open>
  One item of a multistate segment: the state suffix is looked for at the end of the
  item, then the count after the first \<^verbatim>\<open>~\<close>; \<^verbatim>\<open>parseInt(...) || 1\<close> reads \<open>1\<close> for
  \<^verbatim>\<open>NaN\<close> and for \<open>0\<close>. The result is \<^const>\<open>None\<close> when \<^verbatim>\<open>decodeURIComponent\<close>
  throws, and else the name, the state and the count that the item gives.
\<close>

definition parseSelectionItem :: "string \<Rightarrow> (string \<times> MultiState \<times> int modelled) option" where
  "parseSelectionItem item =
     (let st = (if endsWith item ''.'' then StateAnd
                else if endsWith item ''!'' then StateNot else StateOr);
          encodedName = (if endsWith item ''.'' \<or> endsWith item ''!'' then butlast item else item);
          c = (if CHR ''~'' \<in> set encodedName then
                 (case parseInt (tl (dropWhile (\<lambda>x. x \<noteq> CHR ''~'') encodedName)) of
                    NaN \<Rightarrow> InModel 1
                  | Whole i \<Rightarrow> if i = 0 then InModel 1 else InModel i
                  | Unrepresented \<Rightarrow> OutsideModel)
               else InModel 1);
          encodedName' = takeWhile (\<lambda>x. x \<noteq> CHR ''~'') encodedName
      in map_option (\<lambda>nm. (nm, st, c)) (decodeURIComponent encodedName'))"

text \<open>
  The loop over the items, from the selection built so far: \<^const>\<open>None\<close> when an item
  throws, and outside the model once an item has stored, under an own key, a count that
  is.
\<close>

fun parseSelection ::
  "string list \<Rightarrow> MultiStateSelection modelled \<Rightarrow> MultiStateSelection modelled option" where
  "parseSelection [] sel = Some sel"
| "parseSelection (item # items) sel =
     (case parseSelectionItem item of
        None \<Rightarrow> None
      | Some (nm, st, c) \<Rightarrow>
          parseSelection items
            (case sel of
               OutsideModel \<Rightarrow> OutsideModel
             | InModel obj \<Rightarrow>
                 (case c of
                    InModel i \<Rightarrow> InModel (objectSet nm \<lparr>state = st, count = i\<rparr> obj)
                  | OutsideModel \<Rightarrow> if nm = ''__proto__'' then InModel obj else OutsideModel)))"

text \<open>
  What the body of the loop over the segments does with one segment: nothing
  (\<^verbatim>\<open>continue\<close>, or a test that fails), an assignment \<^verbatim>\<open>filterState[key] = ...\<close> of a
  value of the model or of one outside it, or a \<^verbatim>\<open>URIError\<close> thrown by
  \<^verbatim>\<open>decodeURIComponent\<close>.
\<close>

datatype PartResult = Skipped | Assigned string FilterEntry | AssignedOutside | Thrown

definition parsePart :: "string \<Rightarrow> PartResult" where
  "parsePart part =
     (if CHR '':'' \<notin> set part then Skipped
      else
        let k = takeWhile (\<lambda>x. x \<noteq> CHR '':'') part;
            valueStr = tl (dropWhile (\<lambda>x. x \<noteq> CHR '':'') part)
        in case findConf k of
             None \<Rightarrow> Skipped
           | Some conf \<Rightarrow>
               (case type' conf of
                  RANGE \<Rightarrow>
                    if CHR ''-'' \<in> set valueStr then
                      (let mn = parseFloat (takeWhile (\<lambda>x. x \<noteq> CHR ''-'') valueStr);
                           mx = parseFloat (tl (dropWhile (\<lambda>x. x \<noteq> CHR ''-'') valueStr))
                       in if mn \<noteq> NaN \<and> mx \<noteq> NaN then
                            (case (mn, mx) of
                               (Whole lo, Whole hi) \<Rightarrow>
                                 Assigned k \<lparr>filterValue = Range lo hi, interactedWith = True\<rparr>
                             | _ \<Rightarrow> AssignedOutside)
                          else Skipped)
                    else Skipped
                | DROPDOWN \<Rightarrow>
                    if multistate conf then
                      (case parseSelection (splitOn CHR '','' valueStr) (InModel []) of
                         None \<Rightarrow> Thrown
                       | Some OutsideModel \<Rightarrow> AssignedOutside
                       | Some (InModel sel) \<Rightarrow>
                           if sel \<noteq> [] then
                             Assigned k \<lparr>filterValue = Selection sel, interactedWith = True\<rparr>
                           else Skipped)
                    else
                      (case those (map decodeURIComponent
                                     (filter (\<lambda>v. v \<noteq> []) (splitOn CHR '','' valueStr))) of
                         None \<Rightarrow> Thrown
                       | Some vs \<Rightarrow>
                           if vs \<noteq> [] then
                             Assigned k \<lparr>filterValue = Names vs, interactedWith = True\<rparr>
                           else Skipped)))"

text \<open>
  The loop, inside the \<^verbatim>\<open>try\<close>: the \<^verbatim>\<open>catch\<close> around it ends the loop at the first
  throw, and the function returns the state filled so far. The keys that are assigned
  are keys of \<^const>\<open>ADVANCED_FILTERS\<close>.
\<close>

fun parseParts :: "string list \<Rightarrow> FilterState \<Rightarrow> FilterState modelled" where
  "parseParts [] st = InModel st"
| "parseParts (part # parts) st =
     (case parsePart part of
        Skipped \<Rightarrow> parseParts parts st
      | Assigned k e \<Rightarrow> parseParts parts (AList.update k e st)
      | AssignedOutside \<Rightarrow> OutsideModel
      | Thrown \<Rightarrow> InModel st)"

definition parseCompactFiltersFromUrl :: "string \<Rightarrow> FilterState modelled" where
  "parseCompactFiltersFromUrl filtersParam = parseParts (splitOn CHR ''|'' filtersParam) []"

subsection \<open>Restoring the filters at startup\<close>










section \<open>Reference definitions for the properties\<close>

text \<open>
  The matcher as the specification words it: a term occurs at a position, two spans are
  disjoint, a position is free for a term when the term occurs there and its span is
  disjoint from every claimed span, each term claims its leftmost free position, and the
  match fails as soon as a term has none.
\<close>

definition occursAt :: "string \<Rightarrow> string \<Rightarrow> nat \<Rightarrow> bool" where
  "occursAt hay token k = (k + length token \<le> length hay \<and> take (length token) (drop k hay) = token)"

definition disjointSpans :: "span \<Rightarrow> span \<Rightarrow> bool" where
  "disjointSpans a b = (snd a \<le> fst b \<or> snd b \<le> fst a)"

definition freeAt :: "string \<Rightarrow> string \<Rightarrow> span list \<Rightarrow> nat \<Rightarrow> bool" where
  "freeAt hay token taken k =
     (occursAt hay token k \<and> list_all (disjointSpans (k, k + length token)) taken)"

definition leftmostFree :: "string \<Rightarrow> string \<Rightarrow> span list \<Rightarrow> nat option" where
  "leftmostFree hay token taken = List.find (freeAt hay token taken) [0 ..< Suc (length hay)]"

fun greedyAssign :: "string \<Rightarrow> string list \<Rightarrow> span list \<Rightarrow> span list option" where
  "greedyAssign hay [] taken = Some taken"
| "greedyAssign hay (t # ts) taken =
     (case leftmostFree hay t taken of
        None \<Rightarrow> None
      | Some k \<Rightarrow> greedyAssign hay ts (taken @ [(k, k + length t)]))"

definition claimedSpansOk :: "string \<Rightarrow> string list \<Rightarrow> span list \<Rightarrow> bool" where
  "claimedSpansOk hay terms taken =
     (list_all2 (\<lambda>t sp. snd sp = fst sp + length t \<and> occursAt hay t (fst sp)) terms taken
      \<and> sorted_wrt disjointSpans taken)"

text \<open>
  A unit possesses a name for a key: as the name of one of its components for the key
  \<^verbatim>\<open>componentName\<close>, as the value or one of the values of the field otherwise.
\<close>

definition possesses :: "Unit \<Rightarrow> string \<Rightarrow> string \<Rightarrow> bool" where
  "possesses unit k nm =
     (if k = ''componentName'' then nm \<in> set (map comp_n (comp unit))
      else nm \<in> set (unitValues (field unit k)))"

text \<open>A unit for the examples.\<close>

definition exampleAtlas :: Unit where
  "exampleAtlas =
     \<lparr>id' = 1, bv = 1897, chassis' = Some ''atlas'', model' = Some ''as7-d'',
      comp = [\<lparr>comp_n = ''LRM 20'', comp_q = 1\<rparr>, \<lparr>comp_n = ''AC/20'', comp_q = 1\<rparr>,
              \<lparr>comp_n = ''Medium Laser'', comp_q = 4\<rparr>],
      props = [(''type'', Text ''Mek''), (''tons'', Number 100), (''heat'', Number 28),
               (''cost'', Number 500)]\<rparr>"

text \<open>
  The id sets of the external filters as the specification words them. The selected eras
  are looked up by name; \<open>selectedEraIdSet\<close> holds their ids. \<open>claimedFactionIds\<close> is
  the union of the selected factions' per-era id sets restricted to the selected eras;
  \<open>factionIdsInContext\<close> restricts only when some selected era is known.
\<close>

definition selectedEraIdSet :: "DataService \<Rightarrow> string list \<Rightarrow> int set" where
  "selectedEraIdSet ds es = set (map era_id (filter (\<lambda>e. era_name e \<in> set es) (getEras ds)))"

definition claimedEraIds :: "DataService \<Rightarrow> string list \<Rightarrow> int set" where
  "claimedEraIds ds es =
     (\<Union>nm \<in> set es. case getEraByName ds nm of
                        None \<Rightarrow> {}
                      | Some era \<Rightarrow> era_units era - extinctUnitIdsForEra ds era)"

definition claimedFactionIds :: "DataService \<Rightarrow> string list \<Rightarrow> string list \<Rightarrow> int set" where
  "claimedFactionIds ds fs es =
     (\<Union>nm \<in> set fs. case getFactionByName ds nm of
                        None \<Rightarrow> {}
                      | Some f \<Rightarrow>
                          \<Union> (snd ` {p \<in> set (faction_eras f). fst p \<in> selectedEraIdSet ds es}))"

definition factionIdsInContext :: "DataService \<Rightarrow> string list \<Rightarrow> string list \<Rightarrow> int set" where
  "factionIdsInContext ds fs es =
     (\<Union>nm \<in> set fs. case getFactionByName ds nm of
                        None \<Rightarrow> {}
                      | Some f \<Rightarrow>
                          \<Union> (snd ` {p \<in> set (faction_eras f).
                                        selectedEraIdSet ds es = {} \<or> fst p \<in> selectedEraIdSet ds es}))"

text \<open>
  The records that the pipeline keeps according to the claim when both filters are
  touched: those whose id lies in both id sets.
\<close>

definition claimedKept :: "DataService \<Rightarrow> Unit list \<Rightarrow> string list \<Rightarrow> string list \<Rightarrow> Unit list" where
  "claimedKept ds us es fs =
     filter (\<lambda>u. id' u \<in> claimedEraIds ds es \<inter> claimedFactionIds ds fs es) us"

text \<open>No filter other than the era and the faction filter is touched.\<close>

definition onlyExternalTouched :: "FilterState \<Rightarrow> bool" where
  "onlyExternalTouched st =
     list_all (\<lambda>conf. external conf \<or>
                 (case map_of st (key conf) of None \<Rightarrow> True | Some fs \<Rightarrow> \<not> interactedWith fs))
       ADVANCED_FILTERS"

text \<open>Data for the examples: one era, a faction, and the faction of the extinct units.\<close>

definition exampleLocust :: Unit where
  "exampleLocust =
     \<lparr>id' = 2, bv = 432, chassis' = Some ''locust'', model' = Some ''lct-1v'',
      comp = [\<lparr>comp_n = ''Medium Laser'', comp_q = 1\<rparr>],
      props = [(''type'', Text ''Mek''), (''tons'', Number 20), (''heat'', Number (- 1)),
               (''cost'', Number 50)]\<rparr>"

definition exampleData :: DataService where
  "exampleData =
     \<lparr>isDataReady = True, getUnits = [exampleAtlas, exampleLocust],
      getEras = [\<lparr>era_id = 1, era_name = ''Star League'', era_units = {1, 2}\<rparr>],
      getFactions = [\<lparr>faction_id = 3, faction_name = ''Extinct'', faction_eras = [(1, {2})]\<rparr>,
                     \<lparr>faction_id = 10, faction_name = ''Federated Suns'',
                      faction_eras = [(1, {1, 2})]\<rparr>,
                     \<lparr>faction_id = 11, faction_name = ''Lyran Commonwealth'',
                      faction_eras = [(1, {1})]\<rparr>]\<rparr>"

definition exampleService :: Service where
  "exampleService =
     \<lparr>dataService = exampleData, calculateAdjustedBV = (\<lambda>b g p. b),
      splitQuery = (\<lambda>q. None), pilotGunnerySkill = 4, pilotPilotingSkill = 5,
      search = None, filterState = [], selectedSort = ''name'',
      selectedSortDirection = ''asc'', expandedView = False, totalRangesCache = [],
      urlStateInitialized = False\<rparr>"

definition touched :: "FilterValue \<Rightarrow> FilterEntry" where
  "touched v = \<lparr>filterValue = v, interactedWith = True\<rparr>"

definition exampleEraLyran :: FilterState where
  "exampleEraLyran =
     [(''era'', touched (Names [''Star League''])),
      (''faction'', touched (Names [''Lyran Commonwealth'']))]"

definition exampleEraFaction :: FilterState where
  "exampleEraFaction =
     [(''era'', touched (Names [''Star League''])),
      (''faction'', touched (Names [''Federated Suns'']))]"

text \<open>
  A value clamped into a range, the invariant of the cache of total ranges, and the
  inert values of \<^verbatim>\<open>setFilter\<close> as the claim lists them: the empty array for a plain
  dropdown, an empty or all-off selection for a multistate dropdown (an empty array is an
  object without keys), the available range for a range filter.
\<close>

definition clampInto :: "int \<times> int \<Rightarrow> int \<Rightarrow> int" where
  "clampInto r v = max (fst r) (min v (snd r))"

definition cacheOrdered :: "Service \<Rightarrow> bool" where
  "cacheOrdered svc = list_all (\<lambda>p. fst (snd p) \<le> snd (snd p)) (totalRangesCache svc)"

definition inertValue :: "Service \<Rightarrow> AdvFilterConfig \<Rightarrow> FilterValue \<Rightarrow> bool" where
  "inertValue svc conf v =
     (case type' conf of
        DROPDOWN \<Rightarrow>
          if multistate conf then
            (case v of
               Selection sel \<Rightarrow> list_all (\<lambda>p. state (snd p) = StateOff) sel
             | Names ns \<Rightarrow> ns = []
             | Range lo hi \<Rightarrow> False)
          else v = Names []
      | RANGE \<Rightarrow>
          (case availableRangeOf svc (key conf) of
             None \<Rightarrow> False
           | Some r \<Rightarrow> v = Range (fst r) (snd r)))"

definition exampleCostService :: Service where
  "exampleCostService = exampleService\<lparr>filterState := [(''cost'', touched (Range 10 1000))]\<rparr>"









chapter \<open>Properties\<close>

section \<open>Smart ordering is a permutation\<close>

lemma mset_insertSorted: "mset (insertSorted cmp x ys) = add_mset x (mset ys)"
  by (induction ys) auto

lemma mset_sortJs: "mset (sortJs cmp xs) = mset xs"
  unfolding sortJs_def by (induction xs) (auto simp: mset_insertSorted)

lemma newSet_aux:
  "distinct acc \<Longrightarrow> distinct (acc @ xs) \<Longrightarrow>
   fold (\<lambda>x acc. if x \<in> set acc then acc else acc @ [x]) xs acc = acc @ xs"
  by (induction xs arbitrary: acc) auto

lemma newSet_distinct: "distinct xs \<Longrightarrow> newSet xs = xs"
  unfolding newSet_def using newSet_aux[of "[]" xs] by simp

lemma mset_removeAll_distinct:
  "distinct os \<Longrightarrow> m \<in> set os \<Longrightarrow> add_mset m (mset (removeAll m os)) = mset os"
  by (induction os) auto

lemma emitMatches_inv:
  "distinct ms \<Longrightarrow> set ms \<subseteq> set os \<Longrightarrow> distinct os \<Longrightarrow>
   emitMatches ms (os, so) = (os', so') \<Longrightarrow>
   distinct os' \<and> mset os' + mset so' = mset os + mset so"
proof (induction ms arbitrary: os so)
  case Nil
  then show ?case by (simp add: emitMatches_def)
next
  case (Cons m ms)
  have step: "emitMatches (m # ms) (os, so) = emitMatches ms (removeAll m os, so @ [m])"
    by (simp add: emitMatches_def)
  have d: "distinct (removeAll m os)" using Cons.prems(3) by (simp add: distinct_removeAll)
  have s: "set ms \<subseteq> set (removeAll m os)" using Cons.prems(1,2) by auto
  have ih: "distinct os' \<and> mset os' + mset so' = mset (removeAll m os) + mset (so @ [m])"
    using Cons.IH[OF _ s d] Cons.prems(1,4) step by simp
  have r: "add_mset m (mset (removeAll m os)) = mset os"
    using mset_removeAll_distinct[of os m] Cons.prems(2,3) by simp
  have "mset (removeAll m os) + mset (so @ [m]) = add_mset m (mset (removeAll m os)) + mset so"
    by simp
  also have "\<dots> = mset os + mset so" by (simp only: r)
  finally show ?case using ih by simp
qed

lemma orderStep_inv:
  assumes "distinct os" and "orderStep lc p (os, so) = (os', so')"
  shows "distinct os' \<and> mset os' + mset so' = mset os + mset so"
proof (cases "endsWith p ''*''")
  case True
  let ?ms = "sortJs (naturalCompare lc) (filter (\<lambda>opt. startsWith opt (butlast p)) os)"
  have m: "mset ?ms = mset (filter (\<lambda>opt. startsWith opt (butlast p)) os)"
    by (rule mset_sortJs)
  have d: "distinct ?ms"
    using m assms(1) by (metis distinct_filter mset_eq_imp_distinct_iff)
  have s: "set ?ms \<subseteq> set os"
    using m by (metis filter_is_subset mset_eq_setD)
  have "emitMatches ?ms (os, so) = (os', so')"
    using assms(2) True by (simp add: orderStep_def)
  from emitMatches_inv[OF d s assms(1) this] show ?thesis .
next
  case False
  show ?thesis
  proof (cases "p \<in> set os")
    case True
    have "os' = removeAll p os" "so' = so @ [p]"
      using assms(2) False True by (simp_all add: orderStep_def)
    moreover have "add_mset p (mset (removeAll p os)) = mset os"
      using mset_removeAll_distinct[of os p] assms(1) True by simp
    ultimately show ?thesis using assms(1) by (simp add: distinct_removeAll)
  next
    case nin: False
    then show ?thesis using assms False by (simp add: orderStep_def)
  qed
qed

lemma fold_orderStep_inv:
  "distinct os \<Longrightarrow> fold (orderStep lc) order (os, so) = (os', so') \<Longrightarrow>
   distinct os' \<and> mset os' + mset so' = mset os + mset so"
proof (induction order arbitrary: os so)
  case Nil
  then show ?case by simp
next
  case (Cons p order)
  obtain os1 so1 where st: "orderStep lc p (os, so) = (os1, so1)"
    by (cases "orderStep lc p (os, so)")
  from orderStep_inv[OF Cons.prems(1) st]
  have d1: "distinct os1" and m1: "mset os1 + mset so1 = mset os + mset so" by simp_all
  have "fold (orderStep lc) order (os1, so1) = (os', so')"
    using Cons.prems(2) st by simp
  from Cons.IH[OF d1 this] m1 show ?case by simp
qed

text \<open>
  C9. For every list of distinct option names, every comparator for the locale and every
  predefined order, absent, empty or with wildcard entries, the result of
  \<^const>\<open>smartDropdownSort\<close> has the same elements with the same multiplicities as
  the input, has the length of the input and repeats no option.
\<close>

theorem smartDropdownSort_permutation:
  "distinct opts \<Longrightarrow>
   mset (smartDropdownSort lc opts predefinedOrder) = mset opts
   \<and> length (smartDropdownSort lc opts predefinedOrder) = length opts
   \<and> distinct (smartDropdownSort lc opts predefinedOrder)"
proof -
  assume d: "distinct opts"
  have m: "mset (smartDropdownSort lc opts predefinedOrder) = mset opts"
  proof (cases predefinedOrder)
    case None
    then show ?thesis by (simp add: smartDropdownSort_def mset_sortJs)
  next
    case (Some order)
    show ?thesis
    proof (cases "order = []")
      case True
      then show ?thesis using Some by (simp add: smartDropdownSort_def mset_sortJs)
    next
      case False
      obtain os' so' where f: "fold (orderStep lc) order (newSet opts, []) = (os', so')"
        by (cases "fold (orderStep lc) order (newSet opts, [])")
      have "fold (orderStep lc) order (opts, []) = (os', so')"
        using f d by (simp add: newSet_distinct)
      from fold_orderStep_inv[OF d this]
      have "mset os' + mset so' = mset opts" by simp
      moreover have "smartDropdownSort lc opts predefinedOrder = so' @ sortJs (naturalCompare lc) os'"
        using Some False f by (simp add: smartDropdownSort_def)
      ultimately show ?thesis by (simp add: mset_sortJs add.commute)
    qed
  qed
  have l: "length (smartDropdownSort lc opts predefinedOrder) = length opts"
    using mset_eq_length[OF m] .
  have "distinct (smartDropdownSort lc opts predefinedOrder)"
    using mset_eq_imp_distinct_iff[OF m] d by simp
  with m l show ?thesis by simp
qed

theorem smartDropdownSort_permutation_witness:
  "distinct [''Heavy'', ''Small Craft'', ''Light'', ''Ultra Light 2'', ''Ultra Light 1'']
   \<and> smartDropdownSort byteCompare
        [''Heavy'', ''Small Craft'', ''Light'', ''Ultra Light 2'', ''Ultra Light 1'']
        (Some [''Ultra Light*'', ''Light'', ''Medium'', ''Heavy'', ''Small*''])
       = [''Ultra Light 1'', ''Ultra Light 2'', ''Light'', ''Heavy'', ''Small Craft'']
   \<and> mset (smartDropdownSort byteCompare
        [''Heavy'', ''Small Craft'', ''Light'', ''Ultra Light 2'', ''Ultra Light 1'']
        (Some [''Ultra Light*'', ''Light'', ''Medium'', ''Heavy'', ''Small*'']))
       = mset [''Heavy'', ''Small Craft'', ''Light'', ''Ultra Light 2'', ''Ultra Light 1'']"
proof -
  have d: "distinct [''Heavy'', ''Small Craft'', ''Light'', ''Ultra Light 2'', ''Ultra Light 1'']"
    by simp
  have e: "smartDropdownSort byteCompare
        [''Heavy'', ''Small Craft'', ''Light'', ''Ultra Light 2'', ''Ultra Light 1'']
        (Some [''Ultra Light*'', ''Light'', ''Medium'', ''Heavy'', ''Small*''])
       = [''Ultra Light 1'', ''Ultra Light 2'', ''Light'', ''Heavy'', ''Small Craft'']"
    by code_simp
  show ?thesis
    using smartDropdownSort_permutation[OF d, of byteCompare
        "Some [''Ultra Light*'', ''Light'', ''Medium'', ''Heavy'', ''Small*'']"] d e
    by simp
qed

section \<open>Non-overlapping token matching\<close>

lemma find_upt_Some:
  "List.find P [a ..< b] = Some k \<longleftrightarrow> a \<le> k \<and> k < b \<and> P k \<and> (\<forall>j. a \<le> j \<and> j < k \<longrightarrow> \<not> P j)"
proof (induction "b - a" arbitrary: a)
  case 0
  then show ?case by auto
next
  case (Suc n)
  then have ab: "a < b" by simp
  have e: "[a ..< b] = a # [Suc a ..< b]" using ab by (simp add: upt_conv_Cons)
  have ih: "List.find P [Suc a ..< b] = Some k \<longleftrightarrow>
        Suc a \<le> k \<and> k < b \<and> P k \<and> (\<forall>j. Suc a \<le> j \<and> j < k \<longrightarrow> \<not> P j)"
    using Suc.hyps(1)[of "Suc a"] Suc.hyps(2) by simp
  show ?case
  proof (cases "P a")
    case True
    then show ?thesis using e ab
      by (metis find.simps(2) le_refl linorder_not_less nat_less_le option.inject)
  next
    case False
    have "List.find P [a ..< b] = List.find P [Suc a ..< b]" using e False by simp
    moreover have "(a \<le> k \<and> k < b \<and> P k \<and> (\<forall>j. a \<le> j \<and> j < k \<longrightarrow> \<not> P j))
       = (Suc a \<le> k \<and> k < b \<and> P k \<and> (\<forall>j. Suc a \<le> j \<and> j < k \<longrightarrow> \<not> P j))"
      using False by (metis Suc_leD Suc_le_eq nat_less_le)
    ultimately show ?thesis using ih by simp
  qed
qed

lemma find_upt_None:
  "List.find P [a ..< b] = None \<longleftrightarrow> (\<forall>j. a \<le> j \<and> j < b \<longrightarrow> \<not> P j)"
  by (auto simp: find_None_iff)

lemma find_upt_skip:
  assumes "a \<le> c" and "\<forall>j. a \<le> j \<and> j < c \<longrightarrow> \<not> P j"
  shows "List.find P [a ..< b] = List.find P [c ..< b]"
proof (cases "List.find P [c ..< b]")
  case None
  then have "\<forall>j. c \<le> j \<and> j < b \<longrightarrow> \<not> P j" by (simp add: find_upt_None)
  with assms(2) have "\<forall>j. a \<le> j \<and> j < b \<longrightarrow> \<not> P j"
    by (meson linorder_not_less)
  then have "List.find P [a ..< b] = None" by (simp add: find_upt_None)
  with None show ?thesis by simp
next
  case (Some k)
  then have k: "c \<le> k" "k < b" "P k" "\<forall>j. c \<le> j \<and> j < k \<longrightarrow> \<not> P j"
    by (simp_all add: find_upt_Some)
  have "\<forall>j. a \<le> j \<and> j < k \<longrightarrow> \<not> P j"
    using assms(2) k(4) by (meson linorder_not_less)
  then have "List.find P [a ..< b] = Some k"
    using k assms(1) by (simp add: find_upt_Some)
  then show ?thesis using Some by simp
qed

lemma overlaps_iff: "overlaps taken k e = (\<not> list_all (disjointSpans (k, e)) taken)"
  by (induction taken) (auto simp: overlaps_def disjointSpans_def)

lemma occursAt_match:
  "token \<noteq> [] \<Longrightarrow> occursAt hay token k \<longleftrightarrow> take (length token) (drop k hay) = token"
proof
  assume "occursAt hay token k"
  then show "take (length token) (drop k hay) = token" by (simp add: occursAt_def)
next
  assume t: "token \<noteq> []" and m: "take (length token) (drop k hay) = token"
  have "length (take (length token) (drop k hay)) = length token" using m by simp
  then have "length token \<le> length hay - k" by simp
  moreover have "0 < length token" using t by simp
  ultimately have "k + length token \<le> length hay" by linarith
  then show "occursAt hay token k" using m by (simp add: occursAt_def)
qed

lemma findFree_find:
  "token \<noteq> [] \<Longrightarrow>
   findFree hay token taken start = List.find (freeAt hay token taken) [start ..< Suc (length hay)]"
proof (induction hay token taken start rule: findFree.induct)
  case (1 hay token taken start)
  let ?P = "freeAt hay token taken"
  let ?M = "\<lambda>k. take (length token) (drop k hay) = token"
  have occ: "\<And>k. occursAt hay token k = ?M k" using occursAt_match[OF "1.prems"] by simp
  show ?case
  proof (cases "start + length token \<le> length hay")
    case False
    have "\<forall>j. start \<le> j \<and> j < Suc (length hay) \<longrightarrow> \<not> ?P j"
      using False by (auto simp: freeAt_def occursAt_def)
    then have "List.find ?P [start ..< Suc (length hay)] = None" by (simp add: find_upt_None del: upt_Suc)
    then show ?thesis using False by (simp add: findFree.simps[of hay token taken start])
  next
    case True
    then have ms: "min start (length hay) = start" by simp
    show ?thesis
    proof (cases "indexOf hay token start")
      case None
      then have "\<forall>j. start \<le> j \<and> j < Suc (length hay - length token) \<longrightarrow> \<not> ?M j"
        using ms by (simp add: indexOf_def find_upt_None del: upt_Suc)
      then have "\<forall>j. start \<le> j \<and> j < Suc (length hay) \<longrightarrow> \<not> ?P j"
        unfolding freeAt_def occursAt_def by (metis Suc_leI le_imp_less_Suc add_leD1 add_le_imp_le_diff)
      then have "List.find ?P [start ..< Suc (length hay)] = None" by (simp add: find_upt_None del: upt_Suc)
      then show ?thesis using True None by (simp add: findFree.simps[of hay token taken start])
    next
      case (Some idx)
      then have i: "start \<le> idx" "idx < Suc (length hay - length token)" "?M idx"
        "\<forall>j. start \<le> j \<and> j < idx \<longrightarrow> \<not> ?M j"
        using ms by (simp_all add: indexOf_def find_upt_Some del: upt_Suc)
      have before: "\<forall>j. start \<le> j \<and> j < idx \<longrightarrow> \<not> ?P j"
        using i(4) occ by (simp add: freeAt_def)
      show ?thesis
      proof (cases "overlaps taken idx (idx + length token)")
        case False
        then have "?P idx" using i(3) occ by (simp add: freeAt_def overlaps_iff)
        moreover have "idx < Suc (length hay)" using i(2) by simp
        ultimately have "List.find ?P [start ..< Suc (length hay)] = Some idx"
          using i(1) before by (simp add: find_upt_Some del: upt_Suc)
        then show ?thesis using True Some False
          by (simp add: findFree.simps[of hay token taken start] del: upt_Suc)
      next
        case ov: True
        then have "\<not> ?P idx" by (simp add: freeAt_def overlaps_iff)
        with before have "\<forall>j. start \<le> j \<and> j < Suc idx \<longrightarrow> \<not> ?P j"
          by (metis less_Suc_eq)
        from find_upt_skip[of start "Suc idx" ?P, OF _ this] i(1)
        have "List.find ?P [start ..< Suc (length hay)] = List.find ?P [Suc idx ..< Suc (length hay)]"
          by (simp del: upt_Suc)
        moreover have "findFree hay token taken (idx + 1)
            = List.find ?P [idx + 1 ..< Suc (length hay)]"
          using "1.IH"[OF True Some _ "1.prems"] ov by (simp del: upt_Suc)
        ultimately show ?thesis using True Some ov
          by (simp add: findFree.simps[of hay token taken start] del: upt_Suc)
      qed
    qed
  qed
qed

lemma matchTokens_greedy:
  "matchTokens hay tokens taken = greedyAssign hay (filter (\<lambda>t. t \<noteq> []) tokens) taken"
  by (induction tokens arbitrary: taken)
     (auto simp: leftmostFree_def findFree_find simp del: upt_Suc split: option.splits)

lemma disjointSpans_sym: "disjointSpans a b = disjointSpans b a"
  by (auto simp: disjointSpans_def)

lemma leftmostFree_Some:
  "leftmostFree hay t taken = Some k \<Longrightarrow> freeAt hay t taken k"
  unfolding leftmostFree_def by (simp add: find_upt_Some del: upt_Suc)

lemma greedyAssign_ok:
  "sorted_wrt disjointSpans taken0 \<Longrightarrow> greedyAssign hay ts taken0 = Some taken \<Longrightarrow>
   \<exists>new. taken = taken0 @ new
     \<and> list_all2 (\<lambda>t sp. snd sp = fst sp + length t \<and> occursAt hay t (fst sp)) ts new
     \<and> sorted_wrt disjointSpans taken"
proof (induction ts arbitrary: taken0)
  case Nil
  then show ?case by simp
next
  case (Cons t ts)
  from Cons.prems(2) obtain k where k: "leftmostFree hay t taken0 = Some k"
    and r: "greedyAssign hay ts (taken0 @ [(k, k + length t)]) = Some taken"
    by (auto split: option.splits)
  from leftmostFree_Some[OF k] have occ: "occursAt hay t k"
    and dj: "list_all (disjointSpans (k, k + length t)) taken0"
    by (simp_all add: freeAt_def)
  have "\<forall>x\<in>set taken0. disjointSpans x (k, k + length t)"
    using dj disjointSpans_sym by (simp add: list_all_iff)
  then have s: "sorted_wrt disjointSpans (taken0 @ [(k, k + length t)])"
    using Cons.prems(1) by (simp add: sorted_wrt_append)
  from Cons.IH[OF s r] obtain new where n: "taken = (taken0 @ [(k, k + length t)]) @ new"
    and l: "list_all2 (\<lambda>t sp. snd sp = fst sp + length t \<and> occursAt hay t (fst sp)) ts new"
    and sw: "sorted_wrt disjointSpans taken" by blast
  have "taken = taken0 @ ((k, k + length t) # new)" using n by simp
  moreover have "list_all2 (\<lambda>t sp. snd sp = fst sp + length t \<and> occursAt hay t (fst sp))
       (t # ts) ((k, k + length t) # new)" using l occ by simp
  ultimately show ?case using sw by blast
qed

text \<open>
  C6. For every text and every list of terms, the matcher reports a match exactly when
  the greedy assignment succeeds that gives each non-empty term, in order, its leftmost
  occurrence disjoint from all spans claimed before; the spans it claims are occurrences
  of their terms and pairwise disjoint; and for the text \<^verbatim>\<open>as7-d\<close> and the terms
  \<^verbatim>\<open>as7\<close>, \<^verbatim>\<open>7\<close> it reports no match, nor does \<^const>\<open>matchesWords\<close> for
  the unit with chassis \<^verbatim>\<open>atlas\<close> and model \<^verbatim>\<open>as7-d\<close>.
\<close>

theorem tokensMatchNonOverlapping_greedy:
  "tokensMatchNonOverlapping hay tokens
     = (greedyAssign hay (filter (\<lambda>t. t \<noteq> []) tokens) [] \<noteq> None)
   \<and> (\<forall>taken. matchTokens hay tokens [] = Some taken
         \<longrightarrow> claimedSpansOk hay (filter (\<lambda>t. t \<noteq> []) tokens) taken)
   \<and> \<not> tokensMatchNonOverlapping ''as7-d'' [''as7'', ''7'']
   \<and> \<not> matchesWords exampleAtlas [''as7'', ''7'']"
proof (intro conjI allI impI)
  show "tokensMatchNonOverlapping hay tokens
     = (greedyAssign hay (filter (\<lambda>t. t \<noteq> []) tokens) [] \<noteq> None)"
    by (simp add: tokensMatchNonOverlapping_def matchTokens_greedy)
next
  fix taken
  assume "matchTokens hay tokens [] = Some taken"
  then have "greedyAssign hay (filter (\<lambda>t. t \<noteq> []) tokens) [] = Some taken"
    by (simp add: matchTokens_greedy)
  from greedyAssign_ok[OF _ this] show "claimedSpansOk hay (filter (\<lambda>t. t \<noteq> []) tokens) taken"
    by (auto simp: claimedSpansOk_def)
next
  have "matchTokens ''as7-d'' [''as7'', ''7''] [] = None" by code_simp
  then show "\<not> tokensMatchNonOverlapping ''as7-d'' [''as7'', ''7'']"
    by (simp add: tokensMatchNonOverlapping_def)
next
  show "\<not> matchesWords exampleAtlas [''as7'', ''7'']" by code_simp
qed

theorem tokensMatchNonOverlapping_greedy_witness:
  "matchTokens ''as7-d 7'' [''as7'', ''7''] [] = Some [(0, 3), (6, 7)]
   \<and> claimedSpansOk ''as7-d 7'' [''as7'', ''7''] [(0, 3), (6, 7)]
   \<and> tokensMatchNonOverlapping ''as7-d 7'' [''as7'', ''7'']
   \<and> greedyAssign ''as7-d 7'' [''as7'', ''7''] [] = Some [(0, 3), (6, 7)]"
proof -
  have m: "matchTokens ''as7-d 7'' [''as7'', ''7''] [] = Some [(0, 3), (6, 7)]" by code_simp
  have g: "greedyAssign ''as7-d 7'' [''as7'', ''7''] [] = Some [(0, 3), (6, 7)]" by code_simp
  show ?thesis
    using tokensMatchNonOverlapping_greedy[of "''as7-d 7''" "[''as7'', ''7'']"] m g
    by simp
qed

section \<open>Tri-state set matcher: a NOT entry excludes\<close>

lemma set_newSet_aux:
  "set (fold (\<lambda>x acc. if x \<in> set acc then acc else acc @ [x]) xs acc) = set acc \<union> set xs"
  by (induction xs arbitrary: acc) auto

lemma set_newSet: "set (newSet xs) = set xs"
  by (simp add: newSet_def set_newSet_aux)

lemma componentNames_aux:
  "set (fst (fold (\<lambda>component (componentNames, componentCounts).
             (if comp_n component \<in> set componentNames then componentNames
              else componentNames @ [comp_n component],
              AList.update (comp_n component)
                (countOf componentCounts (comp_n component) + comp_q component)
                componentCounts)) cs (ns, cts)))
   = set ns \<union> set (map comp_n cs)"
  by (induction cs arbitrary: ns cts) auto

lemma set_componentNames: "set (fst (getUnitComponentData unit)) = set (map comp_n (comp unit))"
  unfolding getUnitComponentData_def using componentNames_aux[of "comp unit" "[]" "[]"] by simp

lemma names_unitDataFor: "nm \<in> set (names (unitDataFor k q unit)) \<longleftrightarrow> possesses unit k nm"
  by (simp add: unitDataFor_def possesses_def set_componentNames set_newSet)

text \<open>
  C5. For every unit list, key and multistate selection: when the selection has an entry
  in state \<^verbatim>\<open>not\<close> whose name the unit possesses for the key, the unit is not in
  the list that \<^const>\<open>filterUnitsByMultiState\<close> returns, whatever the other entries
  of the selection are.
\<close>

theorem not_entry_excludes:
  assumes "(nm, sv) \<in> set selection" and "state sv = StateNot" and "possesses unit k nm"
  shows "unit \<notin> set (filterUnitsByMultiState us k selection)"
proof -
  let ?notSet = "[n. (n, s) \<leftarrow> selection, state s = StateNot]"
  have n: "nm \<in> set ?notSet" using assms(1,2) by force
  have ne: "?notSet \<noteq> []"
  proof
    assume e: "?notSet = []"
    from n show False unfolding e by simp
  qed
  have np: "\<And>orList andList q. \<not> unitPasses orList andList ?notSet q (unitDataFor k q unit)"
    using n assms(3) by (auto simp: unitPasses_def list_ex_iff names_unitDataFor)
  let ?orList = "[(n, count s). (n, s) \<leftarrow> selection, state s = StateOr]"
  let ?andList = "[(n, count s). (n, s) \<leftarrow> selection, state s = StateAnd]"
  let ?q = "list_ex (\<lambda>(n, c). c > 1) (?orList @ ?andList)"
  have "filterUnitsByMultiState us k selection
      = filter (\<lambda>unit. unitPasses ?orList ?andList ?notSet ?q (unitDataFor k ?q unit)) us"
    unfolding filterUnitsByMultiState_def Let_def by (simp only: ne simp_thms if_False)
  then show ?thesis using np by simp
qed

theorem not_entry_excludes_witness:
  "(''Medium Laser'', \<lparr>state = StateNot, count = 1\<rparr>)
     \<in> set [(''AC/20'', \<lparr>state = StateAnd, count = 1\<rparr>),
             (''LRM 20'', \<lparr>state = StateOr, count = 1\<rparr>),
             (''Medium Laser'', \<lparr>state = StateNot, count = 1\<rparr>)]
   \<and> possesses exampleAtlas ''componentName'' ''Medium Laser''
   \<and> filterUnitsByMultiState [exampleAtlas] ''componentName''
         [(''AC/20'', \<lparr>state = StateAnd, count = 1\<rparr>),
          (''LRM 20'', \<lparr>state = StateOr, count = 1\<rparr>)] = [exampleAtlas]
   \<and> exampleAtlas \<notin> set (filterUnitsByMultiState [exampleAtlas] ''componentName''
         [(''AC/20'', \<lparr>state = StateAnd, count = 1\<rparr>),
          (''LRM 20'', \<lparr>state = StateOr, count = 1\<rparr>),
          (''Medium Laser'', \<lparr>state = StateNot, count = 1\<rparr>)])"
proof -
  have m: "(''Medium Laser'', \<lparr>state = StateNot, count = 1\<rparr>)
     \<in> set [(''AC/20'', \<lparr>state = StateAnd, count = 1\<rparr>),
             (''LRM 20'', \<lparr>state = StateOr, count = 1\<rparr>),
             (''Medium Laser'', \<lparr>state = StateNot, count = 1\<rparr>)]" by simp
  have s: "state \<lparr>state = StateNot, count = 1\<rparr> = StateNot" by simp
  have p: "possesses exampleAtlas ''componentName'' ''Medium Laser''"
    by (simp add: possesses_def exampleAtlas_def)
  have k: "filterUnitsByMultiState [exampleAtlas] ''componentName''
         [(''AC/20'', \<lparr>state = StateAnd, count = 1\<rparr>),
          (''LRM 20'', \<lparr>state = StateOr, count = 1\<rparr>)] = [exampleAtlas]"
    by code_simp
  show ?thesis
    using not_entry_excludes[OF m s p, of "[exampleAtlas]"] m p k by simp
qed

section \<open>External filters: which ids decide\<close>

lemma fold_union: "fold (\<lambda>x acc. acc \<union> g x) xs A = A \<union> (\<Union>x\<in>set xs. g x)"
  by (induction xs arbitrary: A) auto

lemma fold_union_if:
  "fold (\<lambda>(eraId, ids) acc. if C eraId then acc \<union> ids else acc) ps A
   = A \<union> \<Union> (snd ` {p \<in> set ps. C (fst p)})"
proof (induction ps arbitrary: A)
  case Nil
  then show ?case by simp
next
  case (Cons p ps)
  obtain a b where p: "p = (a, b)" by (cases p)
  show ?case
  proof (cases "C a")
    case True
    then have "{q \<in> set (p # ps). C (fst q)} = insert p {q \<in> set ps. C (fst q)}"
      using p by auto
    then show ?thesis using True p Cons.IH[of "A \<union> b"] by auto
  next
    case False
    then have "{q \<in> set (p # ps). C (fst q)} = {q \<in> set ps. C (fst q)}"
      using p by auto
    then show ?thesis using False p Cons.IH[of A] by simp
  qed
qed

lemma getUnitIdsForSelectedEras_eq:
  "getUnitIdsForSelectedEras ds es = (if es = [] then None else Some (claimedEraIds ds es))"
proof -
  have f: "(\<lambda>eraName unitIds.
              case getEraByName ds eraName of
                None \<Rightarrow> unitIds
              | Some era \<Rightarrow> unitIds \<union> {i \<in> era_units era. i \<notin> extinctUnitIdsForEra ds era})
         = (\<lambda>x acc. acc \<union> (case getEraByName ds x of
                                None \<Rightarrow> {}
                              | Some era \<Rightarrow> era_units era - extinctUnitIdsForEra ds era))"
    by (intro ext) (auto split: option.splits)
  show ?thesis
    unfolding getUnitIdsForSelectedEras_def f fold_union claimedEraIds_def by simp
qed

lemma getUnitIdsForSelectedFactions_eq:
  "getUnitIdsForSelectedFactions ds fs ctx =
     (if fs = [] then None
      else Some (\<Union>nm \<in> set fs. case getFactionByName ds nm of
                        None \<Rightarrow> {}
                      | Some f \<Rightarrow>
                          \<Union> (snd ` {p \<in> set (faction_eras f).
                                        (case ctx of None \<Rightarrow> True | Some c \<Rightarrow> fst p \<in> c)})))"
proof -
  have f: "(\<lambda>factionName unitIds.
                         case getFactionByName ds factionName of
                           None \<Rightarrow> unitIds
                         | Some faction \<Rightarrow>
                             fold (\<lambda>(eraId, ids) acc.
                                     if (case ctx of
                                           None \<Rightarrow> True
                                         | Some c \<Rightarrow> eraId \<in> c)
                                     then acc \<union> ids else acc)
                               (faction_eras faction) unitIds)
       = (\<lambda>x acc. acc \<union> (case getFactionByName ds x of
                        None \<Rightarrow> {}
                      | Some f \<Rightarrow>
                          \<Union> (snd ` {p \<in> set (faction_eras f).
                                        (case ctx of None \<Rightarrow> True | Some c \<Rightarrow> fst p \<in> c)})))"
    by (intro ext) (simp add: fold_union_if split: option.splits)
  show ?thesis
    unfolding getUnitIdsForSelectedFactions_def f fold_union by simp
qed

lemma externalIds_eq:
  "externalIds svc st =
     (if selectedNames (activeFilters st) ''faction'' \<noteq> [] then
        Some (factionIdsInContext (dataService svc)
                (selectedNames (activeFilters st) ''faction'')
                (selectedNames (activeFilters st) ''era''))
      else if selectedNames (activeFilters st) ''era'' \<noteq> [] then
        Some (claimedEraIds (dataService svc) (selectedNames (activeFilters st) ''era''))
      else None)"
proof -
  let ?es = "selectedNames (activeFilters st) ''era''"
  let ?fs = "selectedNames (activeFilters st) ''faction''"
  let ?ids = "map era_id (filter (\<lambda>e. era_name e \<in> set ?es) (getEras (dataService svc)))"
  show ?thesis
  proof (cases "?fs = []")
    case True
    then show ?thesis
      by (simp add: externalIds_def Let_def getUnitIdsForSelectedEras_eq)
  next
    case False
    have c: "getUnitIdsForSelectedFactions (dataService svc) ?fs
               (if ?ids \<noteq> [] then Some (set ?ids) else None)
             = Some (factionIdsInContext (dataService svc) ?fs ?es)"
    proof (cases "?ids = []")
      case True
      then have "selectedEraIdSet (dataService svc) ?es = {}"
        by (simp add: selectedEraIdSet_def)
      then show ?thesis using True False
        by (simp add: getUnitIdsForSelectedFactions_eq factionIdsInContext_def cong: option.case_cong)
    next
      case ne: False
      then have "selectedEraIdSet (dataService svc) ?es \<noteq> {}"
        by (auto simp: selectedEraIdSet_def filter_empty_conv)
      moreover have "set ?ids = selectedEraIdSet (dataService svc) ?es"
        by (simp add: selectedEraIdSet_def)
      ultimately show ?thesis using ne False
        by (simp add: getUnitIdsForSelectedFactions_eq factionIdsInContext_def cong: option.case_cong)
    qed
    show ?thesis using False c
      by (simp add: externalIds_def Let_def)
  qed
qed

lemma applyConf_id:
  "external conf \<or> (case map_of st (key conf) of None \<Rightarrow> True | Some fs \<Rightarrow> \<not> interactedWith fs)
   \<Longrightarrow> applyConf svc st conf rs = rs"
  by (auto simp: applyConf_def split: option.splits)

lemma fold_applyConf_id:
  "list_all (\<lambda>conf. external conf \<or>
                 (case map_of st (key conf) of None \<Rightarrow> True | Some fs \<Rightarrow> \<not> interactedWith fs)) cs
   \<Longrightarrow> fold (applyConf svc st) cs rs = rs"
  by (induction cs arbitrary: rs) (simp_all add: applyConf_id)

text \<open>
  C2, as the code has it. When no other filter is touched, and \<open>es\<close> and \<open>fs\<close> are
  the names selected by the touched era and faction filters (empty for an untouched one):
  with a faction selected, the pipeline keeps exactly the units whose id lies in the union
  of the selected factions' per-era id sets, restricted to the selected eras when some
  selected era is known and unrestricted otherwise; the eras' own id sets and the extinct
  units are not consulted. With only eras selected, it keeps exactly the units whose id
  lies in the union of the selected eras' id sets without each era's extinct units. With
  neither, it keeps every unit. When some selected era is known, the faction id set is
  the one the claim describes; and when moreover that set lies within the id set of the
  selected eras, the kept units are those of the intersection of the two sets.
\<close>

theorem external_filters_keep:
  assumes "onlyExternalTouched st"
    and "selectedNames (activeFilters st) ''era'' = es"
    and "selectedNames (activeFilters st) ''faction'' = fs"
  shows "applyFilters svc us st =
           (if fs \<noteq> [] then
              filter (\<lambda>u. id' u \<in> factionIdsInContext (dataService svc) fs es) us
            else if es \<noteq> [] then
              filter (\<lambda>u. id' u \<in> claimedEraIds (dataService svc) es) us
            else us)
         \<and> (selectedEraIdSet (dataService svc) es \<noteq> {} \<longrightarrow>
              factionIdsInContext (dataService svc) fs es
                = claimedFactionIds (dataService svc) fs es)
         \<and> (fs \<noteq> [] \<and> selectedEraIdSet (dataService svc) es \<noteq> {}
              \<and> claimedFactionIds (dataService svc) fs es \<subseteq> claimedEraIds (dataService svc) es
              \<longrightarrow> applyFilters svc us st = claimedKept (dataService svc) us es fs)"
proof -
  have "fold (applyConf svc st) ADVANCED_FILTERS =  (\<lambda>rs. rs)"
    using assms(1) fold_applyConf_id[of st ADVANCED_FILTERS svc]
    unfolding onlyExternalTouched_def by (intro ext) simp
  then have 1: "applyFilters svc us st =
           (if fs \<noteq> [] then
              filter (\<lambda>u. id' u \<in> factionIdsInContext (dataService svc) fs es) us
            else if es \<noteq> [] then
              filter (\<lambda>u. id' u \<in> claimedEraIds (dataService svc) es) us
            else us)"
    using assms(2,3) by (simp add: applyFilters_def externalIds_eq)
  have 2: "selectedEraIdSet (dataService svc) es \<noteq> {} \<longrightarrow>
              factionIdsInContext (dataService svc) fs es
                = claimedFactionIds (dataService svc) fs es"
    by (simp add: factionIdsInContext_def claimedFactionIds_def cong: option.case_cong)
  have 3: "fs \<noteq> [] \<and> selectedEraIdSet (dataService svc) es \<noteq> {}
              \<and> claimedFactionIds (dataService svc) fs es \<subseteq> claimedEraIds (dataService svc) es
              \<longrightarrow> applyFilters svc us st = claimedKept (dataService svc) us es fs"
  proof
    assume h: "fs \<noteq> [] \<and> selectedEraIdSet (dataService svc) es \<noteq> {}
              \<and> claimedFactionIds (dataService svc) fs es \<subseteq> claimedEraIds (dataService svc) es"
    then have i: "claimedEraIds (dataService svc) es \<inter> claimedFactionIds (dataService svc) fs es
        = claimedFactionIds (dataService svc) fs es" by blast
    have "applyFilters svc us st
        = filter (\<lambda>u. id' u \<in> claimedFactionIds (dataService svc) fs es) us"
      using 1 2 h by simp
    then show "applyFilters svc us st = claimedKept (dataService svc) us es fs"
      unfolding claimedKept_def i .
  qed
  from 1 2 3 show ?thesis by (intro conjI)
qed

theorem external_filters_keep_witness:
  "onlyExternalTouched exampleEraFaction
   \<and> selectedNames (activeFilters exampleEraFaction) ''era'' = [''Star League'']
   \<and> selectedNames (activeFilters exampleEraFaction) ''faction'' = [''Federated Suns'']
   \<and> applyFilters exampleService [exampleAtlas, exampleLocust] exampleEraFaction
       = filter (\<lambda>u. id' u \<in> factionIdsInContext exampleData [''Federated Suns''] [''Star League''])
           [exampleAtlas, exampleLocust]
   \<and> factionIdsInContext exampleData [''Federated Suns''] [''Star League''] = {1, 2}
   \<and> selectedEraIdSet exampleData [''Star League''] = {1}
   \<and> claimedFactionIds exampleData [''Lyran Commonwealth''] [''Star League''] = {1}
   \<and> claimedEraIds exampleData [''Star League''] = {1}
   \<and> applyFilters exampleService [exampleAtlas, exampleLocust] exampleEraLyran
       = claimedKept exampleData [exampleAtlas, exampleLocust] [''Star League'']
           [''Lyran Commonwealth'']
   \<and> applyFilters exampleService [exampleAtlas, exampleLocust] exampleEraLyran = [exampleAtlas]"
proof -
  have h1: "onlyExternalTouched exampleEraFaction" by code_simp
  have h2: "selectedNames (activeFilters exampleEraFaction) ''era'' = [''Star League'']"
    by code_simp
  have h3: "selectedNames (activeFilters exampleEraFaction) ''faction'' = [''Federated Suns'']"
    by code_simp
  have d: "dataService exampleService = exampleData" by (simp add: exampleService_def)
  have i: "factionIdsInContext exampleData [''Federated Suns''] [''Star League''] = {1, 2}"
    by code_simp
  have a: "applyFilters exampleService [exampleAtlas, exampleLocust] exampleEraFaction
       = filter (\<lambda>u. id' u \<in> factionIdsInContext exampleData [''Federated Suns''] [''Star League''])
           [exampleAtlas, exampleLocust]"
    using external_filters_keep[OF h1 h2 h3, of exampleService "[exampleAtlas, exampleLocust]",
        THEN conjunct1] d by simp
  have l1: "onlyExternalTouched exampleEraLyran" by code_simp
  have l2: "selectedNames (activeFilters exampleEraLyran) ''era'' = [''Star League'']"
    by code_simp
  have l3: "selectedNames (activeFilters exampleEraLyran) ''faction'' = [''Lyran Commonwealth'']"
    by code_simp
  have e: "selectedEraIdSet exampleData [''Star League''] = {1}" by code_simp
  have f: "claimedFactionIds exampleData [''Lyran Commonwealth''] [''Star League''] = {1}"
    by code_simp
  have g: "claimedEraIds exampleData [''Star League''] = {1}" by code_simp
  have b: "applyFilters exampleService [exampleAtlas, exampleLocust] exampleEraLyran
       = claimedKept exampleData [exampleAtlas, exampleLocust] [''Star League'']
           [''Lyran Commonwealth'']"
    using external_filters_keep[OF l1 l2 l3, of exampleService "[exampleAtlas, exampleLocust]",
        THEN conjunct2, THEN conjunct2] d e f g by simp
  have c: "applyFilters exampleService [exampleAtlas, exampleLocust] exampleEraLyran
       = [exampleAtlas]" by code_simp
  show ?thesis using h1 h2 h3 a i e f g b c by (intro conjI)
qed

text \<open>
  C2, as stated, fails: with the era Star League and the faction Federated Suns both
  selected, the pipeline keeps the Locust, which the faction lists for the era and which
  is extinct in it, while the intersection of the claim's two id sets holds the Atlas
  only.
\<close>

theorem era_faction_intersection_counterexample:
  "applyFilters exampleService [exampleAtlas, exampleLocust] exampleEraFaction
     = [exampleAtlas, exampleLocust]
   \<and> claimedKept exampleData [exampleAtlas, exampleLocust] [''Star League''] [''Federated Suns'']
     = [exampleAtlas]"
proof -
  have 1: "applyFilters exampleService [exampleAtlas, exampleLocust] exampleEraFaction
     = [exampleAtlas, exampleLocust]" by code_simp
  have 2: "claimedKept exampleData [exampleAtlas, exampleLocust] [''Star League''] [''Federated Suns'']
     = [exampleAtlas]" by code_simp
  from 1 2 show ?thesis by simp
qed

section \<open>An untouched filter does not constrain\<close>

lemma filter_update_untouched:
  "distinct (map fst st) \<Longrightarrow> \<not> interactedWith e \<Longrightarrow>
   filter (\<lambda>(k, s). interactedWith s) (AList.update k e st)
   = filter (\<lambda>(k, s). interactedWith s) (AList.delete k st)"
proof (induction st)
  case Nil
  then show ?case by simp
next
  case (Cons p st)
  obtain k' v where p: "p = (k', v)" by (cases p)
  show ?case
  proof (cases "k' = k")
    case True
    have "k \<notin> fst ` set st" using Cons.prems(1) p True by auto
    then have "AList.delete k st = st" by (rule AList.delete_id)
    then show ?thesis using p True Cons.prems(2) by simp
  next
    case False
    then show ?thesis using Cons p by simp
  qed
qed

lemma activeFilters_untouched:
  "distinct (map fst st) \<Longrightarrow> \<not> interactedWith e \<Longrightarrow>
   activeFilters (AList.update k e st) = activeFilters (AList.delete k st)"
  by (simp add: activeFilters_def filter_update_untouched)

lemma applyConf_untouched:
  "\<not> interactedWith e \<Longrightarrow>
   applyConf svc (AList.update k e st) conf results = applyConf svc (AList.delete k st) conf results"
  by (simp add: applyConf_def update_conv' delete_conv')

text \<open>
  C3. For every filter state with distinct keys, every key, every unit list and every
  value: the pipeline gives the same list with the key's entry marked untouched as with
  the entry deleted; and when the state had no entry for the key, touching the filter and
  then marking it untouched gives the list of the state before.
\<close>

theorem untouched_filter_same_as_absent:
  "distinct (map fst st) \<Longrightarrow>
   applyFilters svc us (AList.update k \<lparr>filterValue = v, interactedWith = False\<rparr> st)
     = applyFilters svc us (AList.delete k st)
   \<and> (k \<notin> fst ` set st \<longrightarrow>
        applyFilters svc us
          (AList.update k \<lparr>filterValue = v, interactedWith = False\<rparr>
             (AList.update k \<lparr>filterValue = w, interactedWith = True\<rparr> st))
        = applyFilters svc us st)"
proof -
  assume d: "distinct (map fst st)"
  let ?e = "\<lparr>filterValue = v, interactedWith = False\<rparr>"
  have a: "activeFilters (AList.update k ?e st) = activeFilters (AList.delete k st)"
    using activeFilters_untouched[OF d, of ?e k] by simp
  have c: "applyConf svc (AList.update k ?e st) = applyConf svc (AList.delete k st)"
    using applyConf_untouched[of ?e svc k st] by (intro ext) simp
  have 1: "applyFilters svc us (AList.update k ?e st) = applyFilters svc us (AList.delete k st)"
    by (simp add: applyFilters_def externalIds_def a c)
  have 2: "k \<notin> fst ` set st \<longrightarrow>
        applyFilters svc us (AList.update k ?e (AList.update k \<lparr>filterValue = w, interactedWith = True\<rparr> st))
        = applyFilters svc us st"
  proof
    assume n: "k \<notin> fst ` set st"
    have "AList.delete k st = st" using n by (rule AList.delete_id)
    moreover have "AList.update k ?e (AList.update k \<lparr>filterValue = w, interactedWith = True\<rparr> st)
           = AList.update k ?e st" by (rule AList.update_last)
    ultimately show "applyFilters svc us (AList.update k ?e (AList.update k \<lparr>filterValue = w, interactedWith = True\<rparr> st))
        = applyFilters svc us st" using 1 by simp
  qed
  from 1 2 show ?thesis by simp
qed

theorem untouched_filter_same_as_absent_witness:
  "distinct (map fst [(''type'', touched (Names [''Mek'']))])
   \<and> applyFilters exampleService [exampleAtlas, exampleLocust]
        (AList.update ''tons'' \<lparr>filterValue = Range 50 200, interactedWith = False\<rparr>
           [(''type'', touched (Names [''Mek'']))])
      = applyFilters exampleService [exampleAtlas, exampleLocust]
          (AList.delete ''tons'' [(''type'', touched (Names [''Mek'']))])
   \<and> ''tons'' \<notin> fst ` set [(''type'', touched (Names [''Mek'']))]
   \<and> applyFilters exampleService [exampleAtlas, exampleLocust]
        (AList.update ''tons'' \<lparr>filterValue = Range 50 200, interactedWith = False\<rparr>
           (AList.update ''tons'' \<lparr>filterValue = Range 50 200, interactedWith = True\<rparr>
              [(''type'', touched (Names [''Mek'']))]))
      = applyFilters exampleService [exampleAtlas, exampleLocust]
          [(''type'', touched (Names [''Mek'']))]
   \<and> applyFilters exampleService [exampleAtlas, exampleLocust]
          [(''type'', touched (Names [''Mek'']))] = [exampleAtlas, exampleLocust]
   \<and> applyFilters exampleService [exampleAtlas, exampleLocust]
        (AList.update ''tons'' \<lparr>filterValue = Range 50 200, interactedWith = True\<rparr>
              [(''type'', touched (Names [''Mek'']))]) = [exampleAtlas]"
proof -
  have h: "distinct (map fst [(''type'', touched (Names [''Mek'']))])" by simp
  have n: "''tons'' \<notin> fst ` set [(''type'', touched (Names [''Mek'']))]" by simp
  have a: "applyFilters exampleService [exampleAtlas, exampleLocust]
          [(''type'', touched (Names [''Mek'']))] = [exampleAtlas, exampleLocust]" by code_simp
  have b: "applyFilters exampleService [exampleAtlas, exampleLocust]
        (AList.update ''tons'' \<lparr>filterValue = Range 50 200, interactedWith = True\<rparr>
              [(''type'', touched (Names [''Mek'']))]) = [exampleAtlas]" by code_simp
  show ?thesis
    using untouched_filter_same_as_absent[OF h, of exampleService "[exampleAtlas, exampleLocust]"
        "''tons''" "Range 50 200" "Range 50 200"] h n a b
    by blast
qed

section \<open>Range filters with ignored values\<close>

lemma sentinel_conf:
  "conf \<in> set ADVANCED_FILTERS \<Longrightarrow> ignoreValues conf = Some ivs \<Longrightarrow>
   type' conf = RANGE \<and> \<not> external conf \<and> key conf \<noteq> ''bv'' \<and> ivs = [- 1]"
  unfolding ADVANCED_FILTERS_def dropdownConf_def rangeConf_def by auto

text \<open>
  C7. For every filter of the registry that declares ignored values, every unit whose
  value for the filter's key is one of them, and every state in which the filter is
  touched with the range from \<open>lo\<close> to \<open>hi\<close>: the filter keeps the unit exactly when
  \<open>lo\<close> is \<open>0\<close>.
\<close>

theorem sentinel_kept_iff_lower_bound_zero:
  assumes "conf \<in> set ADVANCED_FILTERS"
    and "ignoreValues conf = Some ivs"
    and "field u (key conf) = Number x"
    and "x \<in> set ivs"
    and "map_of st (key conf) = Some \<lparr>filterValue = Range lo hi, interactedWith = True\<rparr>"
  shows "u \<in> set (applyConf svc st conf results) \<longleftrightarrow> u \<in> set results \<and> lo = 0"
proof -
  from sentinel_conf[OF assms(1,2)]
  have c: "type' conf = RANGE" "\<not> external conf" "key conf \<noteq> ''bv''" by simp_all
  have "applyConf svc st conf results = filter (rangeKeeps conf lo hi) results"
    using c assms(5) by (simp add: applyConf_def)
  moreover have "rangeKeeps conf lo hi u = (lo = 0)"
    using assms(2,3,4) by (simp add: rangeKeeps_def)
  ultimately show ?thesis by simp
qed

theorem sentinel_kept_iff_lower_bound_zero_witness:
  "(rangeConf ''heat'' ''Total Weapons Heat'')\<lparr>ignoreValues := Some [- 1]\<rparr> \<in> set ADVANCED_FILTERS
   \<and> field exampleLocust ''heat'' = Number (- 1)
   \<and> exampleLocust \<in> set (applyConf exampleService [(''heat'', touched (Range 0 50))]
          ((rangeConf ''heat'' ''Total Weapons Heat'')\<lparr>ignoreValues := Some [- 1]\<rparr>)
          [exampleAtlas, exampleLocust])
   \<and> exampleLocust \<notin> set (applyConf exampleService [(''heat'', touched (Range 5 50))]
          ((rangeConf ''heat'' ''Total Weapons Heat'')\<lparr>ignoreValues := Some [- 1]\<rparr>)
          [exampleAtlas, exampleLocust])
   \<and> applyFilters exampleService [exampleAtlas, exampleLocust] [(''heat'', touched (Range 0 50))]
       = [exampleAtlas, exampleLocust]
   \<and> applyFilters exampleService [exampleAtlas, exampleLocust] [(''heat'', touched (Range 5 50))]
       = [exampleAtlas]"
proof -
  let ?conf = "(rangeConf ''heat'' ''Total Weapons Heat'')\<lparr>ignoreValues := Some [- 1]\<rparr>"
  have m: "?conf \<in> set ADVANCED_FILTERS" by (simp add: ADVANCED_FILTERS_def)
  have i: "ignoreValues ?conf = Some [- 1]" by simp
  have k: "key ?conf = ''heat''" by (simp add: rangeConf_def)
  have f: "field exampleLocust (key ?conf) = Number (- 1)"
    unfolding k by (simp add: field_def exampleLocust_def)
  have x: "(- 1 :: int) \<in> set [- 1]" by simp
  have s0: "map_of [(''heat'', touched (Range 0 50))] (key ?conf)
      = Some \<lparr>filterValue = Range 0 50, interactedWith = True\<rparr>"
    unfolding k by (simp add: touched_def)
  have s5: "map_of [(''heat'', touched (Range 5 50))] (key ?conf)
      = Some \<lparr>filterValue = Range 5 50, interactedWith = True\<rparr>"
    unfolding k by (simp add: touched_def)
  have u: "exampleLocust \<in> set [exampleAtlas, exampleLocust]" by simp
  have p0: "applyFilters exampleService [exampleAtlas, exampleLocust]
      [(''heat'', touched (Range 0 50))] = [exampleAtlas, exampleLocust]" by code_simp
  have p5: "applyFilters exampleService [exampleAtlas, exampleLocust]
      [(''heat'', touched (Range 5 50))] = [exampleAtlas]" by code_simp
  show ?thesis
    using sentinel_kept_iff_lower_bound_zero[OF m i f x s0, of exampleService
        "[exampleAtlas, exampleLocust]"]
      sentinel_kept_iff_lower_bound_zero[OF m i f x s5, of exampleService
        "[exampleAtlas, exampleLocust]"]
      m f u p0 p5 k
    by simp
qed

section \<open>The exposed value of a range filter\<close>

lemma distinct_keys: "distinct (map key ADVANCED_FILTERS)"
  by code_simp

lemma map_of_keyed:
  "distinct (map key cs) \<Longrightarrow> c \<in> set cs \<Longrightarrow>
   map_of (map (\<lambda>c. (key c, f c)) cs) (key c) = Some (f c)"
  by (induction cs) (auto simp: image_iff)

lemma advOptions_range:
  assumes "isDataReady (dataService svc)" and "conf \<in> set ADVANCED_FILTERS"
    and "type' conf = RANGE"
  shows "map_of (advOptions svc) (key conf) = Some (RangeOptions (rangeOptions svc conf))"
proof -
  have "map_of (map (\<lambda>c. (key c, case type' c of
                           DROPDOWN \<Rightarrow> DropdownOptions
                         | RANGE \<Rightarrow> RangeOptions (rangeOptions svc c))) ADVANCED_FILTERS) (key conf)
        = Some (case type' conf of
                           DROPDOWN \<Rightarrow> DropdownOptions
                         | RANGE \<Rightarrow> RangeOptions (rangeOptions svc conf))"
    using map_of_keyed[OF distinct_keys assms(2)] .
  then show ?thesis using assms(1,3) by (simp add: advOptions_def)
qed

lemma Min_le_Max_list: "vals \<noteq> [] \<Longrightarrow> Min (set vals) \<le> Max (set vals)"
  by (simp add: Min_le_iff)

lemma options_ordered:
  assumes "cacheOrdered svc"
  shows "fst (options (rangeOptions svc conf)) \<le> snd (options (rangeOptions svc conf))"
proof -
  have t: "\<And>r. map_of (totalRangesCache svc) (key conf) = Some r \<Longrightarrow> fst r \<le> snd r"
  proof -
    fix r assume "map_of (totalRangesCache svc) (key conf) = Some r"
    then have "(key conf, r) \<in> set (totalRangesCache svc)" by (rule map_of_SomeD)
    then show "fst r \<le> snd r" using assms by (auto simp: cacheOrdered_def list_all_iff)
  qed
  show ?thesis
    unfolding rangeOptions_def Let_def
    using t by (auto simp: Min_le_Max_list split: option.splits)
qed

lemma clampRange_spec:
  "fst a \<le> snd a \<Longrightarrow>
   clampRange a c = (min (clampInto a (fst c)) (clampInto a (snd c)),
                     max (clampInto a (fst c)) (clampInto a (snd c)))
   \<and> fst a \<le> fst (clampRange a c)
   \<and> fst (clampRange a c) \<le> snd (clampRange a c)
   \<and> snd (clampRange a c) \<le> snd a"
  unfolding clampRange_def clampInto_def Let_def by (cases a; cases c) auto

text \<open>
  The cache of total ranges holds ordered pairs: it starts empty, and its two writers,
  \<^const>\<open>calculateTotalRanges\<close> and \<^const>\<open>recalculateBVRange\<close>, keep it ordered.
\<close>

lemma totalRangeOf_ordered: "fst (totalRangeOf svc conf) \<le> snd (totalRangeOf svc conf)"
  by (simp add: totalRangeOf_def Let_def Min_le_Max_list)

lemma list_all_update:
  "list_all P xs \<Longrightarrow> P (k, v) \<Longrightarrow> list_all P (AList.update k v xs)"
  by (induction xs) auto

lemma fold_update_ordered:
  "list_all (\<lambda>p. fst (snd p) \<le> snd (snd p)) cache \<Longrightarrow>
   list_all (\<lambda>p. fst (snd p) \<le> snd (snd p))
     (fold (\<lambda>conf cache. AList.update (key conf) (totalRangeOf svc conf) cache) cs cache)"
  by (induction cs arbitrary: cache) (simp_all add: list_all_update totalRangeOf_ordered)

lemma calculateTotalRanges_ordered:
  "cacheOrdered svc \<Longrightarrow> cacheOrdered (calculateTotalRanges svc)"
  by (simp add: cacheOrdered_def calculateTotalRanges_def fold_update_ordered)

lemma setFilter_cache: "totalRangesCache (setFilter svc k v) = totalRangesCache svc"
  by (simp add: setFilter_def split: option.splits)

lemma recalculateBVRange_ordered:
  assumes "cacheOrdered svc"
  shows "cacheOrdered (recalculateBVRange svc)"
proof (cases "filter (\<lambda>b. b > 0) (map (getAdjustedBV svc) (units svc)) = []")
  case True
  then show ?thesis using assms by (simp add: recalculateBVRange_def)
next
  case False
  let ?vals = "filter (\<lambda>b. b > 0) (map (getAdjustedBV svc) (units svc))"
  let ?cache = "AList.update ''bv'' (Min (set ?vals), Max (set ?vals)) (totalRangesCache svc)"
  have o: "list_all (\<lambda>p. fst (snd p) \<le> snd (snd p)) ?cache"
    using assms Min_le_Max_list[OF False]
    by (simp add: cacheOrdered_def list_all_update)
  have "totalRangesCache (recalculateBVRange svc) = ?cache"
    using False
    by (simp add: recalculateBVRange_def Let_def setFilter_cache
             split: option.splits FilterValue.splits)
  then show ?thesis using o by (simp add: cacheOrdered_def)
qed

text \<open>
  C8. For every range filter of the registry that is touched with the stored interval
  from \<open>lo\<close> to \<open>hi\<close>, when the data is ready and the cached total ranges are ordered
  pairs: the value that \<^const>\<open>advOptions\<close> exposes is the stored interval clamped
  into the available range \<^const>\<open>options\<close>, the lesser of the two clamped endpoints
  first; it lies within the available range, lower endpoint first; and the stored
  interval from 10 to 1000 clamped into the available range from 50 to 500 is the interval
  from 50 to 500.
\<close>

theorem exposed_range_clamped:
  assumes "isDataReady (dataService svc)"
    and "conf \<in> set ADVANCED_FILTERS"
    and "type' conf = RANGE"
    and "map_of (filterState svc) (key conf)
           = Some \<lparr>filterValue = Range lo hi, interactedWith = True\<rparr>"
    and "cacheOrdered svc"
  shows "rangeValue (rangeOptions svc conf)
          = clampRange (options (rangeOptions svc conf)) (lo, hi)
    \<and> map_of (advOptions svc) (key conf) = Some (RangeOptions (rangeOptions svc conf))
    \<and> clampRange (options (rangeOptions svc conf)) (lo, hi)
        = (min (clampInto (options (rangeOptions svc conf)) lo)
               (clampInto (options (rangeOptions svc conf)) hi),
           max (clampInto (options (rangeOptions svc conf)) lo)
               (clampInto (options (rangeOptions svc conf)) hi))
    \<and> fst (options (rangeOptions svc conf))
          \<le> fst (clampRange (options (rangeOptions svc conf)) (lo, hi))
    \<and> fst (clampRange (options (rangeOptions svc conf)) (lo, hi))
          \<le> snd (clampRange (options (rangeOptions svc conf)) (lo, hi))
    \<and> snd (clampRange (options (rangeOptions svc conf)) (lo, hi))
          \<le> snd (options (rangeOptions svc conf))
    \<and> clampRange (50, 500) (10, 1000) = (50, 500)"
proof -
  have v: "rangeValue (rangeOptions svc conf)
        = clampRange (options (rangeOptions svc conf)) (lo, hi)"
    using assms(4) by (simp add: rangeOptions_def Let_def)
  have e: "clampRange (50, 500) (10, 1000) = (50, 500)"
    by (simp add: clampRange_def)
  let ?av = "options (rangeOptions svc conf)"
  note c = clampRange_spec[OF options_ordered[OF assms(5)], of conf "(lo, hi)"]
  have c1: "clampRange ?av (lo, hi)
        = (min (clampInto ?av lo) (clampInto ?av hi), max (clampInto ?av lo) (clampInto ?av hi))"
    using c by simp
  have c2: "fst ?av \<le> fst (clampRange ?av (lo, hi))" using c by blast
  have c3: "fst (clampRange ?av (lo, hi)) \<le> snd (clampRange ?av (lo, hi))" using c by blast
  have c4: "snd (clampRange ?av (lo, hi)) \<le> snd ?av" using c by blast
  note a = advOptions_range[OF assms(1,2,3)]
  show ?thesis using v a c1 c2 c3 c4 e by (intro conjI)
qed

theorem exposed_range_clamped_witness:
  "isDataReady (dataService exampleCostService)
   \<and> rangeConf ''cost'' ''Cost'' \<in> set ADVANCED_FILTERS
   \<and> cacheOrdered exampleCostService
   \<and> options (rangeOptions exampleCostService (rangeConf ''cost'' ''Cost'')) = (50, 500)
   \<and> map_of (advOptions exampleCostService) ''cost''
       = Some (RangeOptions \<lparr>totalRange = (0, 0), options = (50, 500), rangeValue = (50, 500),
                              interacted = True\<rparr>)"
proof -
  let ?conf = "rangeConf ''cost'' ''Cost''"
  have r: "isDataReady (dataService exampleCostService)" by code_simp
  have m: "?conf \<in> set ADVANCED_FILTERS" by (simp add: ADVANCED_FILTERS_def)
  have t: "type' ?conf = RANGE" by (simp add: rangeConf_def)
  have k: "key ?conf = ''cost''" by (simp add: rangeConf_def)
  have s: "map_of (filterState exampleCostService) (key ?conf)
      = Some \<lparr>filterValue = Range 10 1000, interactedWith = True\<rparr>"
    unfolding k by (simp add: exampleCostService_def touched_def)
  have c: "cacheOrdered exampleCostService" by code_simp
  have o: "rangeOptions exampleCostService ?conf
      = \<lparr>totalRange = (0, 0), options = (50, 500), rangeValue = (50, 500), interacted = True\<rparr>"
    by code_simp
  show ?thesis
    using exposed_range_clamped[OF r m t s c] r m c o k by simp
qed

section \<open>Setting a filter\<close>

lemma findConf_key: "findConf k = Some conf \<Longrightarrow> key conf = k"
  unfolding findConf_def by (auto simp: find_Some_iff)

text \<open>
  C10. For every key and value: when the key is that of no filter, \<^const>\<open>setFilter\<close>
  leaves the service as it is; otherwise it stores the value under the key and marks the
  entry touched exactly when the value is not inert for the filter's kind.
\<close>

theorem setFilter_touched_unless_inert:
  "(findConf k = None \<longrightarrow> setFilter svc k v = svc)
   \<and> (\<forall>conf. findConf k = Some conf \<longrightarrow>
         setFilter svc k v
           = svc\<lparr>filterState :=
                   AList.update k \<lparr>filterValue = v, interactedWith = \<not> inertValue svc conf v\<rparr>
                     (filterState svc)\<rparr>
         \<and> map_of (filterState (setFilter svc k v)) k
             = Some \<lparr>filterValue = v, interactedWith = \<not> inertValue svc conf v\<rparr>)"
proof (intro conjI allI impI)
  assume "findConf k = None"
  then show "setFilter svc k v = svc" by (simp add: setFilter_def)
next
  fix conf
  assume f: "findConf k = Some conf"
  have kc: "key conf = k" using findConf_key[OF f] .
  have i: "computeInteracted svc conf k v = (\<not> inertValue svc conf v)"
    unfolding computeInteracted_def inertValue_def kc
    by (cases "type' conf"; cases v; cases "availableRangeOf svc k")
       (simp_all add: case_prod_unfold)
  show s: "setFilter svc k v
           = svc\<lparr>filterState :=
                   AList.update k \<lparr>filterValue = v, interactedWith = \<not> inertValue svc conf v\<rparr>
                     (filterState svc)\<rparr>"
    using f i by (simp add: setFilter_def)
  show "map_of (filterState (setFilter svc k v)) k
             = Some \<lparr>filterValue = v, interactedWith = \<not> inertValue svc conf v\<rparr>"
    unfolding s by (simp add: update_conv')
qed

theorem setFilter_touched_unless_inert_witness:
  "findConf ''tons'' = Some (rangeConf ''tons'' ''Tons'')
   \<and> findConf ''mass'' = None
   \<and> setFilter exampleService ''mass'' (Range 20 100) = exampleService
   \<and> inertValue exampleService (rangeConf ''tons'' ''Tons'') (Range 20 100)
   \<and> \<not> inertValue exampleService (rangeConf ''tons'' ''Tons'') (Range 30 100)
   \<and> map_of (filterState (setFilter exampleService ''tons'' (Range 20 100))) ''tons''
       = Some \<lparr>filterValue = Range 20 100, interactedWith = False\<rparr>
   \<and> map_of (filterState (setFilter exampleService ''tons'' (Range 30 100))) ''tons''
       = Some \<lparr>filterValue = Range 30 100, interactedWith = True\<rparr>"
proof -
  have f: "findConf ''tons'' = Some (rangeConf ''tons'' ''Tons'')" by code_simp
  have n: "findConf ''mass'' = None" by code_simp
  have i1: "inertValue exampleService (rangeConf ''tons'' ''Tons'') (Range 20 100)" by code_simp
  have i2: "\<not> inertValue exampleService (rangeConf ''tons'' ''Tons'') (Range 30 100)" by code_simp
  have a: "map_of (filterState (setFilter exampleService ''tons'' (Range 20 100))) ''tons''
       = Some \<lparr>filterValue = Range 20 100, interactedWith = False\<rparr>"
    using setFilter_touched_unless_inert[of "''tons''" exampleService "Range 20 100",
        THEN conjunct2, rule_format, OF f, THEN conjunct2] i1 by simp
  have b: "map_of (filterState (setFilter exampleService ''tons'' (Range 30 100))) ''tons''
       = Some \<lparr>filterValue = Range 30 100, interactedWith = True\<rparr>"
    using setFilter_touched_unless_inert[of "''tons''" exampleService "Range 30 100",
        THEN conjunct2, rule_format, OF f, THEN conjunct2] i2 by simp
  have c: "setFilter exampleService ''mass'' (Range 20 100) = exampleService"
    using setFilter_touched_unless_inert[of "''mass''" exampleService "Range 20 100",
        THEN conjunct1] n by simp
  show ?thesis using f n c i1 i2 a b by (intro conjI)
qed

section \<open>Decoding the compact filters string\<close>
















section \<open>The round trip of the compact filters string\<close>

text \<open>
  C1 at the selection that requires two \<^verbatim>\<open>LRM 5\<close> (state \<^verbatim>\<open>and\<close>, count 2): the
  encoder writes the state suffix before the count, the decoder looks for the suffix at
  the end of the item, and the decoded selection names \<^verbatim>\<open>LRM 5.\<close> in state
  \<^verbatim>\<open>or\<close>.
\<close>

theorem and_with_count_not_restored:
  "generateCompactFiltersParam
     [(''componentName'', touched (Selection [(''LRM 5'', \<lparr>state = StateAnd, count = 2\<rparr>)]))]
     = Some ''componentName:LRM%205.~2''
   \<and> parseCompactFiltersFromUrl ''componentName:LRM%205.~2''
     = InModel
         [(''componentName'', touched (Selection [(''LRM 5.'', \<lparr>state = StateOr, count = 2\<rparr>)]))]"
  by code_simp

end
